theory Spec2Isabelle
  imports Complex_Main
begin

section \<open>The external collaborators\<close>

text \<open>
  The scripts delegate all geometry to two libraries: the B-rep kernel (pythonOCC) and the
  mesh library (PyVista). Neither is part of the repository, so every call into them is a
  field of the record \<open>world\<close>: a run of a script is a function of the world it runs in.
  The type \<open>'s\<close> stands for the kernel's shapes (\<open>TopoDS_Shape\<close> and its subclasses), the
  type \<open>'m\<close> for PyVista datasets (surface meshes and voxel grids).

  A Python \<open>float\<close> is a \<open>real\<close>, and in the mains the arithmetic of the scripts is read
  as exact arithmetic. Where a claim depends on rounding, underflow or overflow, the
  function it is about is given a second time as Python computes it (section Binary64
  arithmetic). Infinities and NaN as inputs are not represented.
\<close>

datatype IFSelect_ReturnStatus =
  IFSelect_RetVoid | IFSelect_RetDone | IFSelect_RetError | IFSelect_RetFail | IFSelect_RetStop

datatype TopAbs_ShapeEnum = TopAbs_SOLID | TopAbs_SHELL | TopAbs_FACE

type_synonym point = "real \<times> real \<times> real"

type_synonym box = "real \<times> real \<times> real \<times> real \<times> real \<times> real"

record ('s, 'm) world =
  os_path_exists :: "string \<Rightarrow> bool"
    \<comment> \<open>\<open>os.path.exists(path)\<close>\<close>
  ReadFile :: "string \<Rightarrow> IFSelect_ReturnStatus"
    \<comment> \<open>\<open>STEPControl_Reader().ReadFile(path)\<close>\<close>
  Shape :: "string \<Rightarrow> 's"
    \<comment> \<open>\<open>reader.TransferRoots(); reader.Shape()\<close> after a read of that path\<close>
  SewedShape :: "real \<Rightarrow> 's \<Rightarrow> 's"
    \<comment> \<open>\<open>BRepBuilderAPI_Sewing(tol)\<close>, \<open>Add(shape)\<close>, \<open>Perform()\<close>, \<open>SewedShape()\<close>\<close>
  TopExp_Explorer :: "'s \<Rightarrow> TopAbs_ShapeEnum \<Rightarrow> 's list"
    \<comment> \<open>the items \<open>Current()\<close> yields while \<open>More()\<close> holds, in the order of \<open>Next()\<close>\<close>
  IsDone :: "'s \<Rightarrow> bool"
    \<comment> \<open>\<open>BRepBuilderAPI_MakeSolid(shell).IsDone()\<close>\<close>
  Solid :: "'s \<Rightarrow> 's"
    \<comment> \<open>\<open>BRepBuilderAPI_MakeSolid(shell).Solid()\<close>\<close>
  Mass :: "'s \<Rightarrow> real"
    \<comment> \<open>\<open>brepgprop_VolumeProperties(solid, props); props.Mass()\<close>\<close>
  CentreOfMass :: "'s \<Rightarrow> point"
    \<comment> \<open>\<open>props.CentreOfMass()\<close>, as \<open>(X(), Y(), Z())\<close>\<close>
  Bnd_Box_Get :: "'s \<Rightarrow> box"
    \<comment> \<open>\<open>brepbndlib_Add(shape, box, True); box.Get()\<close>\<close>
  pv_read_stl :: "'s \<Rightarrow> 'm"
    \<comment> \<open>\<open>pv.read\<close> of the file \<open>write_stl_file(shape, _)\<close> wrote\<close>
  pv_wrap_step :: "string \<Rightarrow> 'm"
    \<comment> \<open>\<open>pv.wrap(read_step_file(path).triangulate())\<close>\<close>
  n_points :: "'m \<Rightarrow> nat"
  triangulate :: "'m \<Rightarrow> 'm"
  voxelize :: "'m \<Rightarrow> real \<Rightarrow> 'm"
    \<comment> \<open>\<open>mesh.voxelize(density=pitch)\<close>\<close>
  n_cells :: "'m \<Rightarrow> nat"

section \<open>Runs: command lines, effects and exit codes\<close>

datatype volume_unit = mm3 | cm3 | m3

text \<open>
  The parsed command line. \<open>argparse\<close> restricts \<open>--unit\<close> to the three keys of the unit
  table, so the option is a \<open>volume_unit\<close>. A script reads only the options it declares.
\<close>

record args =
  arg_step :: string
  arg_tol :: real
  arg_pitch :: real
  arg_unit :: volume_unit
  arg_show :: bool
  arg_bbox :: bool
  arg_out :: string
  arg_view :: bool

text \<open>
  What a run does is the sequence of its effects: the lines it prints (\<open>'l\<close>, one
  constructor per \<open>print\<close> statement of the script, holding the values it formats) and the
  calls that load, repair, write or voxelize. Queries of the kernel that only read a
  shape leave no event.
\<close>

datatype stl_file = Tmp_stl string | Face_stl string nat

datatype ('s, 'l) event =
    Print 'l
  | Print_stderr 'l
  | Call_ReadFile string
  | Call_Sewing real
  | Call_MakeSolid 's
  | Call_write_stl_file 's stl_file
  | Call_makedirs string
  | Call_pv_read stl_file
  | Call_voxelize real
  | Call_plotter_show

text \<open>
  How a run ends: \<open>main\<close> returns, \<open>sys.exit(n)\<close> is called, or the \<open>RuntimeError\<close> of a
  failed STEP read reaches the top level, where the interpreter prints the traceback and
  exits with status 1.
\<close>

datatype outcome = Returned | SystemExit nat | RuntimeError string

fun exit_code :: "outcome \<Rightarrow> nat" where
  "exit_code Returned = 0"
| "exit_code (SystemExit n) = n"
| "exit_code (RuntimeError msg) = 1"

section \<open>Binary64 arithmetic\<close>

text \<open>
  Some statements about volumes hold of exact arithmetic only. Where a claim depends on
  the difference, the function it is about is run a second time with every operation
  rounded as Python's \<open>float\<close> rounds it: to the nearest binary64 number, ties to the even
  significand. The significand has 53 bits and the smallest step is \<open>2 powi (- 1074)\<close>, so
  subnormal results and underflow to zero are those of binary64. \<open>fl\<close> itself has no
  largest number: a result overflows when its rounding reaches \<open>2 powi 1024\<close>, and the
  operations that can overflow say what Python does then.
\<close>

fun bit_length :: "nat \<Rightarrow> nat" where
  "bit_length n = (if n = 0 then 0 else Suc (bit_length (n div 2)))"

declare bit_length.simps [simp del]

text \<open>The exponent \<open>e\<close> with \<open>2 powi e \<le> x < 2 powi (e + 1)\<close>, for a positive \<open>x\<close>.\<close>

definition binade :: "real \<Rightarrow> int" where
  "binade x = (if 1 \<le> x then int (bit_length (nat \<lfloor>x\<rfloor>)) - 1
               else - int (bit_length (nat (\<lceil>1 / x\<rceil> - 1))))"

definition round_half_even :: "real \<Rightarrow> int" where
  "round_half_even x =
     (let n = \<lfloor>x\<rfloor>; r = x - of_int n
      in if r < 1 / 2 then n else if 1 / 2 < r then n + 1 else if even n then n else n + 1)"

text \<open>The exponent of the last place of the binary64 numbers next to \<open>x\<close>.\<close>

definition quantum :: "real \<Rightarrow> int" where
  "quantum x = max (binade \<bar>x\<bar> - 52) (- 1074)"

definition fl :: "real \<Rightarrow> real" where
  "fl x = (if x = 0 then 0
           else let q = quantum x
                in of_int (round_half_even (x / 2 powi q)) * 2 powi q)"

definition fmul :: "real \<Rightarrow> real \<Rightarrow> real" where
  "fmul x y = fl (x * y)"

definition fadd :: "real \<Rightarrow> real \<Rightarrow> real" where
  "fadd x y = fl (x + y)"

definition fdiv :: "real \<Rightarrow> real \<Rightarrow> real" where
  "fdiv x y = fl (x / y)"

definition overflows :: "real \<Rightarrow> bool" where
  "overflows x = (2 powi 1024 \<le> \<bar>fl x\<bar>)"

text \<open>
  \<open>x ** n\<close> on a float is the C library's \<open>pow\<close>, taken as correctly rounded; Python
  raises \<open>OverflowError\<close> when its result overflows, and returns zero when it underflows.
  A product that overflows is an infinity, and no error. An \<open>int\<close> that meets a float is
  converted to a float first, with \<open>OverflowError\<close> when it is too large. The floats
  that enter these operations are finite.
\<close>

datatype py_error = OverflowError

datatype float64 = Finite real | Inf_neg | Inf_pos

fun negative :: "float64 \<Rightarrow> bool" where
  "negative (Finite x) = (x < 0)"
| "negative Inf_neg = True"
| "negative Inf_pos = False"

fun nonpositive :: "float64 \<Rightarrow> bool" where
  "nonpositive (Finite x) = (x \<le> 0)"
| "nonpositive Inf_neg = True"
| "nonpositive Inf_pos = False"

definition float_pow :: "real \<Rightarrow> nat \<Rightarrow> py_error + real" where
  "float_pow x n = (if overflows (x ^ n) then Inl OverflowError else Inr (fl (x ^ n)))"

definition float_mul :: "real \<Rightarrow> real \<Rightarrow> float64" where
  "float_mul x y =
     (if overflows (x * y) then (if x * y < 0 then Inf_neg else Inf_pos)
      else Finite (fl (x * y)))"

definition float_of_nat :: "nat \<Rightarrow> py_error + real" where
  "float_of_nat n = (if overflows (real n) then Inl OverflowError else Inr (fl (real n)))"

section \<open>cal\_fine.py: the hybrid pipeline\<close>

datatype cal_fine_line =
    STEP_file_not_found
  | READ string
  | BBox_volume real volume_unit
  | Sew_tol real
  | OK_closed_solids_found nat
  | Solid_line nat real volume_unit point
  | Total_line real volume_unit
  | WARN_No_closed_solid
  | Voxel_line real real volume_unit

definition cal_fine_read_step_shape ::
  "('s, 'm) world \<Rightarrow> string \<Rightarrow> ('s, 'l) event list \<times> (string + 's)" where
  "cal_fine_read_step_shape w path =
     (if ReadFile w path \<noteq> IFSelect_RetDone
      then ([Call_ReadFile path], Inl path)
      else ([Call_ReadFile path], Inr (Shape w path)))"

text \<open>
  The two \<open>while exp.More()\<close> loops of \<open>sewing_to_solids\<close>, over the items the explorer
  yields; the second argument is the list \<open>solids\<close> built so far.
\<close>

fun explore_solids :: "'s list \<Rightarrow> 's list \<Rightarrow> 's list" where
  "explore_solids [] solids = solids"
| "explore_solids (current # rest) solids = explore_solids rest (solids @ [current])"

fun explore_shells ::
  "('s, 'm) world \<Rightarrow> 's list \<Rightarrow> ('s, 'l) event list \<times> 's list \<Rightarrow> ('s, 'l) event list \<times> 's list" where
  "explore_shells w [] (evs, solids) = (evs, solids)"
| "explore_shells w (shell # rest) (evs, solids) =
     explore_shells w rest
       (evs @ [Call_MakeSolid shell],
        if IsDone w shell then solids @ [Solid w shell] else solids)"

definition sewing_to_solids ::
  "('s, 'm) world \<Rightarrow> 's \<Rightarrow> real \<Rightarrow> ('s, 'l) event list \<times> 's list" where
  "sewing_to_solids w shape tol =
     (let sewed = SewedShape w tol shape;
          solids = explore_solids (TopExp_Explorer w sewed TopAbs_SOLID) []
      in if solids \<noteq> [] then ([Call_Sewing tol], solids)
         else explore_shells w (TopExp_Explorer w sewed TopAbs_SHELL) ([Call_Sewing tol], solids))"

text \<open>
  The \<open>for idx, solid in enumerate(solids)\<close> loop of \<open>solids_volume\<close>; the state is the
  pair \<open>(results, total)\<close>, written \<open>(results, tot)\<close>.
\<close>

fun solids_volume_loop ::
  "('s, 'm) world \<Rightarrow> real \<Rightarrow> nat \<Rightarrow> 's list \<Rightarrow>
   (nat \<times> real \<times> point) list \<times> real \<Rightarrow> (nat \<times> real \<times> point) list \<times> real" where
  "solids_volume_loop w unit_scale idx [] (results, tot) = (results, tot)"
| "solids_volume_loop w unit_scale idx (solid # rest) (results, tot) =
     (let vm = Mass w solid * unit_scale;
          com = CentreOfMass w solid
      in solids_volume_loop w unit_scale (Suc idx) rest (results @ [(idx, vm, com)], tot + vm))"

definition solids_volume ::
  "('s, 'm) world \<Rightarrow> 's list \<Rightarrow> real \<Rightarrow> (nat \<times> real \<times> point) list \<times> real" where
  "solids_volume w solids unit_scale = solids_volume_loop w unit_scale 0 solids ([], 0)"

text \<open>
  The same loop and function with the product and the sum rounded: Python's values as
  long as no product and no partial sum reaches \<open>2 powi 1024\<close>.
\<close>

fun solids_volume_loop_f64 ::
  "('s, 'm) world \<Rightarrow> real \<Rightarrow> nat \<Rightarrow> 's list \<Rightarrow>
   (nat \<times> real \<times> point) list \<times> real \<Rightarrow> (nat \<times> real \<times> point) list \<times> real" where
  "solids_volume_loop_f64 w unit_scale idx [] (results, tot) = (results, tot)"
| "solids_volume_loop_f64 w unit_scale idx (solid # rest) (results, tot) =
     (let vm = fmul (Mass w solid) unit_scale;
          com = CentreOfMass w solid
      in solids_volume_loop_f64 w unit_scale (Suc idx) rest
           (results @ [(idx, vm, com)], fadd tot vm))"

definition solids_volume_f64 ::
  "('s, 'm) world \<Rightarrow> 's list \<Rightarrow> real \<Rightarrow> (nat \<times> real \<times> point) list \<times> real" where
  "solids_volume_f64 w solids unit_scale = solids_volume_loop_f64 w unit_scale 0 solids ([], 0)"

definition bbox_volume_mm3 ::
  "('s, 'm) world \<Rightarrow> 's \<Rightarrow> real \<times> real \<times> real \<times> real \<times> real \<times> real \<times> real" where
  "bbox_volume_mm3 w shape =
     (case Bnd_Box_Get w shape of (xmin, ymin, zmin, xmax, ymax, zmax) \<Rightarrow>
        (xmin, ymin, zmin, xmax, ymax, zmax, (xmax - xmin) * (ymax - ymin) * (zmax - zmin)))"

definition cal_fine_shape_to_pv_mesh ::
  "('s, 'm) world \<Rightarrow> 's \<Rightarrow> ('s, 'l) event list \<times> 'm" where
  "cal_fine_shape_to_pv_mesh w shape =
     ([Call_write_stl_file shape (Tmp_stl ''t.stl''), Call_pv_read (Tmp_stl ''t.stl'')],
      pv_read_stl w shape)"

text \<open>\<open>voxel_volume\<close> in exact arithmetic, as the main below uses it.\<close>

definition cal_fine_voxel_volume ::
  "('s, 'm) world \<Rightarrow> 'm \<Rightarrow> real \<Rightarrow> ('s, 'l) event list \<times> 'm \<times> real" where
  "cal_fine_voxel_volume w mesh pitch =
     (let tri = triangulate w mesh;
          vox = voxelize w tri pitch;
          vol_mm3 = real (n_cells w vox) * pitch ^ 3
      in ([Call_voxelize pitch], vox, vol_mm3))"

text \<open>
  The same function with the power and the product as Python computes them: the grid is
  built first, then \<open>pitch**3\<close> may raise, then the conversion of \<open>n_cells\<close> may.
\<close>

definition cal_fine_voxel_volume_f64 ::
  "('s, 'm) world \<Rightarrow> 'm \<Rightarrow> real \<Rightarrow> ('s, 'l) event list \<times> (py_error + 'm \<times> float64)" where
  "cal_fine_voxel_volume_f64 w mesh pitch =
     (let tri = triangulate w mesh;
          vox = voxelize w tri pitch
      in case float_pow pitch 3 of
           Inl err \<Rightarrow> ([Call_voxelize pitch], Inl err)
         | Inr cube \<Rightarrow>
             (case float_of_nat (n_cells w vox) of
                Inl err \<Rightarrow> ([Call_voxelize pitch], Inl err)
              | Inr cells \<Rightarrow> ([Call_voxelize pitch], Inr (vox, float_mul cells cube))))"

fun UNIT :: "volume_unit \<Rightarrow> real" where
  "UNIT mm3 = 1"
| "UNIT cm3 = 1 / 1000"
| "UNIT m3 = 1 / 1000000000"

definition cal_fine_main ::
  "('s, 'm) world \<Rightarrow> args \<Rightarrow> ('s, cal_fine_line) event list \<times> outcome" where
  "cal_fine_main w a =
     (if \<not> os_path_exists w (arg_step a)
      then ([Print_stderr STEP_file_not_found], SystemExit 1)
      else
        case cal_fine_read_step_shape w (arg_step a) of
          (ev_read, Inl msg) \<Rightarrow> ([Print (READ (arg_step a))] @ ev_read, RuntimeError msg)
        | (ev_read, Inr shape) \<Rightarrow>
            let ev_bbox =
                  (if arg_bbox a
                   then (case bbox_volume_mm3 w shape of
                           (xmin, ymin, zmin, xmax, ymax, zmax, bbox_mm3) \<Rightarrow>
                             [Print (BBox_volume (bbox_mm3 * UNIT (arg_unit a)) (arg_unit a))])
                   else []);
                evs = [Print (READ (arg_step a))] @ ev_read @ ev_bbox @ [Print (Sew_tol (arg_tol a))]
            in
              case sewing_to_solids w shape (arg_tol a) of
                (ev_sew, solids) \<Rightarrow>
                  if solids \<noteq> [] then
                    (case solids_volume w solids (UNIT (arg_unit a)) of
                       (infos, tot) \<Rightarrow>
                         (evs @ ev_sew @ [Print (OK_closed_solids_found (length infos))]
                            @ map (\<lambda>(idx, v, com). Print (Solid_line idx v (arg_unit a) com)) infos
                            @ [Print (Total_line tot (arg_unit a))],
                          Returned))
                  else
                    (case cal_fine_shape_to_pv_mesh w shape of
                       (ev_mesh, mesh) \<Rightarrow>
                         (case cal_fine_voxel_volume w mesh (arg_pitch a) of
                            (ev_vox, vox, vol_mm3) \<Rightarrow>
                              (evs @ ev_sew @ [Print WARN_No_closed_solid] @ ev_mesh @ ev_vox
                                 @ [Print (Voxel_line (arg_pitch a) (vol_mm3 * UNIT (arg_unit a)) (arg_unit a))]
                                 @ (if arg_show a then [Call_plotter_show] else []),
                               Returned))))"

section \<open>voxel1.py: the standalone voxel tool\<close>

datatype voxel1_line =
    STEP_file_not_found_at string
  | INFO_Reading_STEP string
  | Bounding_Box_header
  | Bounding_Box_x real real
  | Bounding_Box_y real real
  | Bounding_Box_z real real
  | Bounding_Box_Volume volume_unit real
  | INFO_Converting_shape_to_mesh
  | ERROR_Empty_mesh_extracted
  | INFO_Voxelizing real
  | Voxel_Volume_Approximation_header
  | Pitch_line real
  | Cells_line nat
  | Volume_line real volume_unit
  | INFO_Launching_viewer

definition voxel1_read_step_shape ::
  "('s, 'm) world \<Rightarrow> string \<Rightarrow> ('s, 'l) event list \<times> (string + 's)" where
  "voxel1_read_step_shape w path =
     (if ReadFile w path \<noteq> IFSelect_RetDone
      then ([Call_ReadFile path], Inl path)
      else ([Call_ReadFile path], Inr (Shape w path)))"

definition shape_bbox_mm3 ::
  "('s, 'm) world \<Rightarrow> 's \<Rightarrow> real \<times> real \<times> real \<times> real \<times> real \<times> real \<times> real" where
  "shape_bbox_mm3 w shape =
     (case Bnd_Box_Get w shape of (xmin, ymin, zmin, xmax, ymax, zmax) \<Rightarrow>
        let dx = xmax - xmin; dy = ymax - ymin; dz = zmax - zmin;
            vol = dx * dy * dz
        in (xmin, ymin, zmin, xmax, ymax, zmax, vol))"

definition voxel1_shape_to_pv_mesh ::
  "('s, 'm) world \<Rightarrow> 's \<Rightarrow> ('s, 'l) event list \<times> 'm" where
  "voxel1_shape_to_pv_mesh w shape =
     ([Call_write_stl_file shape (Tmp_stl ''tmp.stl''), Call_pv_read (Tmp_stl ''tmp.stl'')],
      pv_read_stl w shape)"

text \<open>\<open>voxel_volume_mm3\<close> in exact arithmetic, as the main below uses it.\<close>

definition voxel_volume_mm3 ::
  "('s, 'm) world \<Rightarrow> 'm \<Rightarrow> real \<Rightarrow> ('s, 'l) event list \<times> 'm \<times> real" where
  "voxel_volume_mm3 w mesh pitch =
     (let tri = triangulate w mesh;
          vox = voxelize w tri pitch;
          n = n_cells w vox;
          vol = (pitch ^ 3) * real n
      in ([Call_voxelize pitch], vox, vol))"

text \<open>The same function with the power and the product as Python computes them.\<close>

definition voxel_volume_mm3_f64 ::
  "('s, 'm) world \<Rightarrow> 'm \<Rightarrow> real \<Rightarrow> ('s, 'l) event list \<times> (py_error + 'm \<times> float64)" where
  "voxel_volume_mm3_f64 w mesh pitch =
     (let tri = triangulate w mesh;
          vox = voxelize w tri pitch;
          n = n_cells w vox
      in case float_pow pitch 3 of
           Inl err \<Rightarrow> ([Call_voxelize pitch], Inl err)
         | Inr cube \<Rightarrow>
             (case float_of_nat n of
                Inl err \<Rightarrow> ([Call_voxelize pitch], Inl err)
              | Inr cells \<Rightarrow> ([Call_voxelize pitch], Inr (vox, float_mul cube cells))))"

fun UNIT_SCALE :: "volume_unit \<Rightarrow> real" where
  "UNIT_SCALE mm3 = 1"
| "UNIT_SCALE cm3 = 1 / 1000"
| "UNIT_SCALE m3 = 1 / 1000000000"

definition convert_volume :: "real \<Rightarrow> volume_unit \<Rightarrow> real" where
  "convert_volume vol_mm3 u = vol_mm3 * UNIT_SCALE u"

text \<open>The table and the conversion with the quotients and the product rounded.\<close>

fun UNIT_SCALE_f64 :: "volume_unit \<Rightarrow> real" where
  "UNIT_SCALE_f64 mm3 = 1"
| "UNIT_SCALE_f64 cm3 = fdiv 1 1000"
| "UNIT_SCALE_f64 m3 = fdiv 1 1000000000"

definition convert_volume_f64 :: "real \<Rightarrow> volume_unit \<Rightarrow> real" where
  "convert_volume_f64 vol_mm3 u = fmul vol_mm3 (UNIT_SCALE_f64 u)"

definition voxel1_main ::
  "('s, 'm) world \<Rightarrow> args \<Rightarrow> ('s, voxel1_line) event list \<times> outcome" where
  "voxel1_main w a =
     (let step_path = arg_step a in
      if \<not> os_path_exists w step_path
      then ([Print_stderr (STEP_file_not_found_at step_path)], SystemExit 1)
      else
        case voxel1_read_step_shape w step_path of
          (ev_read, Inl msg) \<Rightarrow> ([Print (INFO_Reading_STEP step_path)] @ ev_read, RuntimeError msg)
        | (ev_read, Inr shape) \<Rightarrow>
            let ev_bbox =
                  (if arg_bbox a
                   then (case shape_bbox_mm3 w shape of
                           (xmin, ymin, zmin, xmax, ymax, zmax, bbox_vol_mm3) \<Rightarrow>
                             let bbox_vol_conv = convert_volume bbox_vol_mm3 (arg_unit a)
                             in [Print Bounding_Box_header,
                                 Print (Bounding_Box_x xmin xmax),
                                 Print (Bounding_Box_y ymin ymax),
                                 Print (Bounding_Box_z zmin zmax),
                                 Print (Bounding_Box_Volume (arg_unit a) bbox_vol_conv)])
                   else []);
                evs = [Print (INFO_Reading_STEP step_path)] @ ev_read @ ev_bbox
                        @ [Print INFO_Converting_shape_to_mesh]
            in
              case voxel1_shape_to_pv_mesh w shape of
                (ev_mesh, mesh) \<Rightarrow>
                  if n_points w mesh = 0
                  then (evs @ ev_mesh @ [Print_stderr ERROR_Empty_mesh_extracted], SystemExit 2)
                  else
                    (case voxel_volume_mm3 w mesh (arg_pitch a) of
                       (ev_vox, vox, vol_mm3) \<Rightarrow>
                         let vol_conv = convert_volume vol_mm3 (arg_unit a)
                         in (evs @ ev_mesh @ [Print (INFO_Voxelizing (arg_pitch a))] @ ev_vox
                               @ [Print Voxel_Volume_Approximation_header,
                                  Print (Pitch_line (arg_pitch a)),
                                  Print (Cells_line (n_cells w vox)),
                                  Print (Volume_line vol_conv (arg_unit a))]
                               @ (if arg_show a
                                  then [Print INFO_Launching_viewer, Call_plotter_show]
                                  else []),
                             Returned)))"

section \<open>voxel2.py: the voxel tool that converts inside the approximator\<close>

datatype voxel2_line =
    ERROR_STEP_file_missing string
  | INFO_STEP_file string
  | INFO_Voxel_Pitch real
  | INFO_Target_Unit volume_unit
  | INFO_Voxelizing_with_pitch real
  | Result_volume real volume_unit

definition voxel2_voxel_volume ::
  "('s, 'm) world \<Rightarrow> string \<Rightarrow> real \<Rightarrow> real \<Rightarrow> ('s, voxel2_line) event list \<times> real \<times> 'm" where
  "voxel2_voxel_volume w step_path pitch unit_scale =
     (let surface = pv_wrap_step w step_path;
          vox = voxelize w surface pitch;
          vol_mm3 = real (n_cells w vox) * (pitch ^ 3);
          vol = vol_mm3 * unit_scale
      in ([Call_ReadFile step_path, Print (INFO_Voxelizing_with_pitch pitch), Call_voxelize pitch],
          vol, vox))"

text \<open>The dictionary literal that \<open>main\<close> of voxel2.py indexes with \<open>args.unit\<close>.\<close>

fun voxel2_unit_scale :: "volume_unit \<Rightarrow> real" where
  "voxel2_unit_scale mm3 = 1"
| "voxel2_unit_scale cm3 = 1 / 1000"
| "voxel2_unit_scale m3 = 1 / 1000000000"

definition voxel2_main ::
  "('s, 'm) world \<Rightarrow> args \<Rightarrow> ('s, voxel2_line) event list \<times> outcome" where
  "voxel2_main w a =
     (let step_file = arg_step a; pitch = arg_pitch a in
      if \<not> os_path_exists w step_file
      then ([Print (ERROR_STEP_file_missing step_file)], SystemExit 1)
      else
        let unit_scale = voxel2_unit_scale (arg_unit a) in
        case voxel2_voxel_volume w step_file pitch unit_scale of
          (ev_vox, vol, vox) \<Rightarrow>
            ([Print (INFO_STEP_file step_file), Print (INFO_Voxel_Pitch pitch),
              Print (INFO_Target_Unit (arg_unit a))]
               @ ev_vox @ [Print (Result_volume vol (arg_unit a))]
               @ (if arg_view a then [Call_plotter_show] else []),
             Returned))"

section \<open>cal\_box.py: the bounding-box tool\<close>

datatype cal_box_line =
    Input_STEP_missing string
  | Box_header
  | Box_x real real
  | Box_y real real
  | Box_z real real
  | Box_Volume real volume_unit

definition compute_bbox_volume ::
  "('s, 'm) world \<Rightarrow> string \<Rightarrow>
   ('s, 'l) event list \<times> (string + real \<times> real \<times> real \<times> real \<times> real \<times> real \<times> real)" where
  "compute_bbox_volume w step_filename =
     (if ReadFile w step_filename \<noteq> IFSelect_RetDone
      then ([Call_ReadFile step_filename], Inl step_filename)
      else
        let shape = Shape w step_filename in
        case Bnd_Box_Get w shape of (xmin, ymin, zmin, xmax, ymax, zmax) \<Rightarrow>
          let dx = xmax - xmin; dy = ymax - ymin; dz = zmax - zmin;
              volume = dx * dy * dz
          in ([Call_ReadFile step_filename], Inr (xmin, ymin, zmin, xmax, ymax, zmax, volume)))"

text \<open>The dictionary literal that \<open>main\<close> of cal\_box.py indexes with \<open>args.unit\<close>.\<close>

fun cal_box_scale :: "volume_unit \<Rightarrow> real" where
  "cal_box_scale mm3 = 1"
| "cal_box_scale cm3 = 1 / 1000"
| "cal_box_scale m3 = 1 / 1000000000"


section \<open>test.py: the face exporter\<close>






section \<open>Observations on a run\<close>


text \<open>The pitches of the calls of the voxelizer, one entry per call.\<close>

fun voxel_calls :: "('s, 'l) event list \<Rightarrow> real list" where
  "voxel_calls [] = []"
| "voxel_calls (Call_voxelize pitch # evs) = pitch # voxel_calls evs"
| "voxel_calls (e # evs) = voxel_calls evs"

text \<open>The shells handed to \<open>BRepBuilderAPI_MakeSolid\<close>, one entry per call.\<close>

fun MakeSolid_calls :: "('s, 'l) event list \<Rightarrow> 's list" where
  "MakeSolid_calls [] = []"
| "MakeSolid_calls (Call_MakeSolid shell # evs) = shell # MakeSolid_calls evs"
| "MakeSolid_calls (e # evs) = MakeSolid_calls evs"

text \<open>The lines that report the bounding box, in either pipeline.\<close>

fun is_bbox_event :: "('s, cal_fine_line) event \<Rightarrow> bool" where
  "is_bbox_event (Print (BBox_volume v u)) = True"
| "is_bbox_event e = False"

fun is_bounding_box_event :: "('s, voxel1_line) event \<Rightarrow> bool" where
  "is_bounding_box_event (Print Bounding_Box_header) = True"
| "is_bounding_box_event (Print (Bounding_Box_x lo hi)) = True"
| "is_bounding_box_event (Print (Bounding_Box_y lo hi)) = True"
| "is_bounding_box_event (Print (Bounding_Box_z lo hi)) = True"
| "is_bounding_box_event (Print (Bounding_Box_Volume u v)) = True"
| "is_bounding_box_event e = False"

section \<open>Scenario worlds\<close>

text \<open>
  Stub collaborators for concrete runs, with shapes and meshes numbered by naturals. The
  file \<open>part.step\<close> exists and reads as shape 0, whose box is the cube from 0 to 10;
  sewing returns the shape; the explorer yields the given solids and shells and six faces;
  shell \<open>n\<close> converts to solid \<open>n + 100\<close> when \<open>done n\<close>; solid \<open>n\<close> has mass \<open>n\<close> at centroid
  (5, 5, 5), except solid 13, whose mass is \<open>-13\<close>; every mesh has \<open>npoints\<close> points and
  every grid \<open>ncells\<close> cells.
\<close>

definition scenario ::
  "nat list \<Rightarrow> nat list \<Rightarrow> (nat \<Rightarrow> bool) \<Rightarrow> nat \<Rightarrow> nat \<Rightarrow> (nat, nat) world" where
  "scenario solids shells done npoints ncells =
     \<lparr> os_path_exists = (\<lambda>path. path = ''part.step''),
       ReadFile = (\<lambda>path. if path = ''part.step'' then IFSelect_RetDone else IFSelect_RetFail),
       Shape = (\<lambda>path. 0),
       SewedShape = (\<lambda>tol shape. shape),
       TopExp_Explorer = (\<lambda>shape kind. case kind of
                            TopAbs_SOLID \<Rightarrow> solids
                          | TopAbs_SHELL \<Rightarrow> shells
                          | TopAbs_FACE \<Rightarrow> [1, 2, 3, 4, 5, 6]),
       IsDone = done,
       Solid = (\<lambda>shell. shell + 100),
       Mass = (\<lambda>solid. if solid = 13 then - 13 else real solid),
       CentreOfMass = (\<lambda>solid. (5, 5, 5)),
       Bnd_Box_Get = (\<lambda>shape. (0, 0, 0, 10, 10, 10)),
       pv_read_stl = (\<lambda>shape. 0),
       pv_wrap_step = (\<lambda>path. 0),
       n_points = (\<lambda>mesh. npoints),
       triangulate = (\<lambda>mesh. mesh),
       voxelize = (\<lambda>mesh pitch. 1),
       n_cells = (\<lambda>grid. ncells) \<rparr>"

text \<open>The closed cube: one solid, of mass 1000.\<close>

definition closed_cube :: "(nat, nat) world" where
  "closed_cube = scenario [1000] [7] (\<lambda>shell. True) 8 1000"


text \<open>Three shells and no solid; shells 7 and 9 convert, shell 8 does not.\<close>

definition three_shells :: "(nat, nat) world" where
  "three_shells = scenario [] [7, 8, 9] (\<lambda>shell. shell \<noteq> 8) 8 1000"

text \<open>A file that reads but holds no geometry: no solid, no shell, no point, no cell.\<close>

definition no_geometry :: "(nat, nat) world" where
  "no_geometry = scenario [] [] (\<lambda>shell. False) 0 0"

definition run_args :: "string \<Rightarrow> real \<Rightarrow> volume_unit \<Rightarrow> bool \<Rightarrow> args" where
  "run_args path pitch u box =
     \<lparr> arg_step = path, arg_tol = 5 / 100, arg_pitch = pitch, arg_unit = u,
       arg_show = False, arg_bbox = box, arg_out = ''faces_out'', arg_view = False \<rparr>"

section \<open>The loops in closed form\<close>

lemma explore_solids_eq: "explore_solids xs acc = acc @ xs"
  by (induction xs arbitrary: acc) auto

lemma explore_shells_eq:
  "explore_shells w xs (evs, solids) =
     (evs @ map Call_MakeSolid xs, solids @ map (Solid w) (filter (IsDone w) xs))"
  by (induction xs arbitrary: evs solids) auto

lemma solids_volume_loop_eq:
  "solids_volume_loop w sc idx xs (results, tot) =
     (results @ map (\<lambda>(i, s). (i, Mass w s * sc, CentreOfMass w s)) (enumerate idx xs),
      tot + sum_list (map (\<lambda>s. Mass w s * sc) xs))"
  by (induction xs arbitrary: idx results tot) (auto simp: Let_def)

lemma solids_volume_eq:
  "solids_volume w solids sc =
     (map (\<lambda>(i, s). (i, Mass w s * sc, CentreOfMass w s)) (enumerate 0 solids),
      sum_list (map (\<lambda>s. Mass w s * sc) solids))"
  by (simp add: solids_volume_def solids_volume_loop_eq)

lemma solids_volume_loop_f64_eq:
  "solids_volume_loop_f64 w sc idx xs (results, tot) =
     (results @ map (\<lambda>(i, s). (i, fmul (Mass w s) sc, CentreOfMass w s)) (enumerate idx xs),
      foldl fadd tot (map (\<lambda>s. fmul (Mass w s) sc) xs))"
  by (induction xs arbitrary: idx results tot) (auto simp: Let_def)

lemma solids_volume_f64_eq:
  "solids_volume_f64 w solids sc =
     (map (\<lambda>(i, s). (i, fmul (Mass w s) sc, CentreOfMass w s)) (enumerate 0 solids),
      foldl fadd 0 (map (\<lambda>s. fmul (Mass w s) sc) solids))"
  by (simp add: solids_volume_f64_def solids_volume_loop_f64_eq)

lemma sewing_to_solids_eq:
  "sewing_to_solids w shape tol =
     (let sewed = SewedShape w tol shape in
      if TopExp_Explorer w sewed TopAbs_SOLID \<noteq> []
      then ([Call_Sewing tol], TopExp_Explorer w sewed TopAbs_SOLID)
      else (Call_Sewing tol # map Call_MakeSolid (TopExp_Explorer w sewed TopAbs_SHELL),
            map (Solid w) (filter (IsDone w) (TopExp_Explorer w sewed TopAbs_SHELL))))"
  by (simp add: sewing_to_solids_def Let_def explore_solids_eq explore_shells_eq)

lemma MakeSolid_calls_map: "MakeSolid_calls (map Call_MakeSolid xs) = xs"
  by (induction xs) auto

lemma map_enumerate_snd: "map (\<lambda>x. g (snd x)) (enumerate n xs) = map g xs"
  by (induction xs arbitrary: n) auto

lemma foldl_add_sum_list: "foldl (+) (a::real) xs = a + sum_list xs"
  by (induction xs arbitrary: a) auto

section \<open>Rounding: error, order and range\<close>

text \<open>
  \<open>binade\<close> is the exponent it is meant to be. \<open>fl\<close> keeps the sign, does not cross a power
  of two, takes what is below half the smallest step to zero, and above the subnormal
  range moves a number by a relative error of at most \<open>1 / 2 ^ 53\<close>.
\<close>

lemma bit_length_bounds:
  "0 < n \<Longrightarrow> 2 ^ (bit_length n - 1) \<le> n \<and> n < 2 ^ bit_length n"
proof (induction n rule: bit_length.induct)
  case (1 n)
  show ?case
  proof (cases "n div 2 = 0")
    case True
    with "1.prems" have "n = 1" by (simp add: div_eq_0_iff) 
    then show ?thesis by (simp add: bit_length.simps)
  next
    case False
    then have pos: "0 < n div 2" by simp
    from "1.prems" have n0: "n \<noteq> 0" by simp
    from "1.IH" [OF n0 pos]
    have lo: "2 ^ (bit_length (n div 2) - 1) \<le> n div 2" and hi: "n div 2 < 2 ^ bit_length (n div 2)"
      by simp_all
    have bl: "bit_length n = Suc (bit_length (n div 2))"
      using n0 by (subst bit_length.simps) simp
    have k: "0 < bit_length (n div 2)"
      using pos by (subst bit_length.simps) simp
    then have "(2::nat) ^ bit_length (n div 2) = 2 * 2 ^ (bit_length (n div 2) - 1)"
      by (cases "bit_length (n div 2)") simp_all
    with lo have "2 ^ bit_length (n div 2) \<le> 2 * (n div 2)" by simp
    then have l: "2 ^ bit_length (n div 2) \<le> n" by linarith
    from hi have "n < 2 * 2 ^ bit_length (n div 2)" by linarith
    with l bl show ?thesis by simp
  qed
qed

lemma binade_bounds:
  assumes "0 < x"
  shows "2 powi binade x \<le> x \<and> x < 2 powi (binade x + 1)"
proof (cases "1 \<le> x")
  case True
  define n where "n = nat \<lfloor>x\<rfloor>"
  from True have fl1: "1 \<le> \<lfloor>x\<rfloor>" by simp
  then have n: "0 < n" unfolding n_def by simp
  from fl1 have rn: "real n = of_int \<lfloor>x\<rfloor>" unfolding n_def by simp
  have nx: "real n \<le> x" and xn: "x < real n + 1"
    unfolding rn by linarith+
  from bit_length_bounds [OF n]
  have lo: "2 ^ (bit_length n - 1) \<le> n" and hi: "n < 2 ^ bit_length n" by simp_all
  have k: "0 < bit_length n" using n by (subst bit_length.simps) simp
  have e: "binade x = int (bit_length n) - 1"
    using True by (simp add: binade_def n_def)
  have e1: "binade x = int (bit_length n - 1)" using e k by simp
  have e2: "binade x + 1 = int (bit_length n)" using e by simp
  from lo have "(2::real) ^ (bit_length n - 1) \<le> real n"
    by (metis of_nat_le_iff of_nat_numeral of_nat_power)
  with nx have "(2::real) ^ (bit_length n - 1) \<le> x" by linarith
  then have A: "2 powi binade x \<le> x" unfolding e1 by (simp add: power_int_def)
  from hi have "Suc n \<le> 2 ^ bit_length n" by simp
  then have "real (Suc n) \<le> (2::real) ^ bit_length n"
    by (metis of_nat_le_iff of_nat_numeral of_nat_power)
  with xn have "x < (2::real) ^ bit_length n" by simp
  then have B: "x < 2 powi (binade x + 1)" unfolding e2 by (simp add: power_int_def)
  from A B show ?thesis ..
next
  case False
  define m where "m = nat (\<lceil>1 / x\<rceil> - 1)"
  from False assms have inv: "1 < 1 / x" by simp
  then have c2: "2 \<le> \<lceil>1 / x\<rceil>" by linarith
  then have c1: "0 < \<lceil>1 / x\<rceil> - 1" by linarith
  then have m: "0 < m" unfolding m_def by (simp only: zero_less_nat_eq)
  have mi: "int m = \<lceil>1 / x\<rceil> - 1" unfolding m_def using c1 by (simp only: nat_0_le less_imp_le)
  have mlt: "real m < 1 / x"
  proof -
    have "real_of_int (\<lceil>1 / x\<rceil> - 1) < 1 / x" by linarith
    then show ?thesis by (metis mi of_int_of_nat_eq)
  qed
  have mge: "1 / x \<le> real m + 1"
  proof -
    have "1 / x \<le> real_of_int \<lceil>1 / x\<rceil>" by linarith
    also have "\<dots> = real_of_int (int m) + 1" using mi by simp
    finally show ?thesis by simp
  qed
  from bit_length_bounds [OF m]
  have lo: "2 ^ (bit_length m - 1) \<le> m" and hi: "m < 2 ^ bit_length m" by simp_all
  have k: "0 < bit_length m" using m by (subst bit_length.simps) simp
  have e: "binade x = - int (bit_length m)"
    using False by (simp add: binade_def m_def)
  from hi have "Suc m \<le> 2 ^ bit_length m" by simp
  then have "real (Suc m) \<le> (2::real) ^ bit_length m"
    by (metis of_nat_le_iff of_nat_numeral of_nat_power)
  with mge have "1 / x \<le> 2 ^ bit_length m" by linarith
  then have "1 \<le> 2 ^ bit_length m * x" using assms by (simp add: field_simps)
  then have A: "2 powi binade x \<le> x"
    unfolding e by (simp add: power_int_minus field_simps)
  from lo have "(2::real) ^ (bit_length m - 1) \<le> real m"
    by (metis of_nat_le_iff of_nat_numeral of_nat_power)
  with mlt have "2 ^ (bit_length m - 1) < 1 / x" by linarith
  then have lt: "2 ^ (bit_length m - 1) * x < 1" using assms by (simp add: field_simps)
  have e3: "binade x + 1 = - int (bit_length m - 1)" using e k by simp
  have B: "x < 2 powi (binade x + 1)"
    unfolding e3 using lt by (simp add: power_int_minus field_simps)
  from A B show ?thesis ..
qed


lemma powi_exp_less: "2 powi a \<le> (x::real) \<Longrightarrow> x < 2 powi c \<Longrightarrow> a < c"
proof (rule ccontr)
  assume lo: "2 powi a \<le> x" and hi: "x < 2 powi c" and "\<not> a < c"
  then have "c \<le> a" by simp
  then have "(2::real) powi c \<le> 2 powi a" by (intro power_int_increasing) simp_all
  with lo hi show False by linarith
qed

lemma powi_exp_le: "2 powi a \<le> (x::real) \<Longrightarrow> x \<le> 2 powi c \<Longrightarrow> a \<le> c"
proof (rule ccontr)
  assume lo: "2 powi a \<le> x" and hi: "x \<le> 2 powi c" and "\<not> a \<le> c"
  then have "c < a" by simp
  then have "(2::real) powi c < 2 powi a" by (intro power_int_strict_increasing) simp_all
  with lo hi show False by linarith
qed

lemma round_half_even_error: "\<bar>of_int (round_half_even y) - y\<bar> \<le> 1 / 2"
  unfolding round_half_even_def Let_def
  by (auto; linarith)

lemma round_half_even_ge: "of_int k \<le> y \<Longrightarrow> k \<le> round_half_even y"
proof -
  assume "of_int k \<le> y"
  then have "k \<le> \<lfloor>y\<rfloor>" by (simp add: le_floor_iff)
  then show ?thesis
    unfolding round_half_even_def Let_def by auto
qed

lemma round_half_even_le: "y \<le> of_int k \<Longrightarrow> round_half_even y \<le> k"
proof (cases "y = of_int \<lfloor>y\<rfloor>")
  case True
  assume "y \<le> of_int k"
  with True have "\<lfloor>y\<rfloor> \<le> k" by linarith
  moreover from True have "y - of_int \<lfloor>y\<rfloor> = 0" by simp
  ultimately show ?thesis
    unfolding round_half_even_def Let_def by simp
next
  case False
  assume "y \<le> of_int k"
  with False have "of_int \<lfloor>y\<rfloor> < y" "y \<le> of_int k" by linarith+
  then have "\<lfloor>y\<rfloor> < k" by linarith
  then show ?thesis
    unfolding round_half_even_def Let_def by auto
qed


lemma round_half_even_small: "\<bar>y\<bar> < 1 / 2 \<Longrightarrow> round_half_even y = 0"
proof (cases "0 \<le> y")
  case True
  assume "\<bar>y\<bar> < 1 / 2"
  with True have "\<lfloor>y\<rfloor> = 0" by (simp add: floor_eq_iff)
  with True \<open>\<bar>y\<bar> < 1 / 2\<close> show ?thesis
    unfolding round_half_even_def Let_def by simp
next
  case False
  assume "\<bar>y\<bar> < 1 / 2"
  with False have f: "\<lfloor>y\<rfloor> = - 1" by (simp add: floor_eq_iff)
  with False \<open>\<bar>y\<bar> < 1 / 2\<close> show ?thesis
    unfolding round_half_even_def Let_def by simp
qed

lemma round_half_even_minus: "round_half_even (- y) = - round_half_even y"
proof (cases "y = of_int \<lfloor>y\<rfloor>")
  case True
  then obtain k where y: "y = of_int k" ..
  have "- y = of_int (- k)" by (simp add: y)
  then have "\<lfloor>- y\<rfloor> = - k" by (metis floor_of_int)
  then show ?thesis
    unfolding round_half_even_def Let_def by (simp add: y)
next
  case False
  define n where "n = \<lfloor>y\<rfloor>"
  from False have lt: "of_int n < y" "y < of_int n + 1" unfolding n_def by linarith+
  then have fm: "\<lfloor>- y\<rfloor> = - n - 1" by (simp add: floor_eq_iff)
  have par: "even (- n - 1) \<longleftrightarrow> odd n" by simp
  show ?thesis
    unfolding round_half_even_def Let_def fm n_def [symmetric]
    using lt par by (auto simp: field_simps)
qed

lemma quantum_minus: "quantum (- x) = quantum x"
  by (simp add: quantum_def)

lemma fl_minus: "fl (- x) = - fl x"
  by (simp add: fl_def Let_def quantum_minus round_half_even_minus)

lemma fl_nonneg: "0 \<le> x \<Longrightarrow> 0 \<le> fl x"
proof -
  assume x: "0 \<le> x"
  have "0 \<le> round_half_even (x / 2 powi q)" for q
    using x by (intro round_half_even_ge) simp
  then show ?thesis
    by (simp add: fl_def Let_def)
qed

lemma fl_nonpos: "x \<le> 0 \<Longrightarrow> fl x \<le> 0"
  using fl_nonneg [of "- x"] by (simp add: fl_minus)

lemma quantum_pos:
  assumes "0 < x"
  shows "quantum x = max (binade x - 52) (- 1074)"
  using assms by (simp add: quantum_def)

lemma fl_ge_pow2:
  assumes k: "- 1074 \<le> k" and x: "2 powi k \<le> x"
  shows "2 powi k \<le> fl x"
proof -
  have pos: "0 < x" using x by (smt (verit) zero_less_power_int)
  define b where "b = binade x"
  define q where "q = quantum x"
  from binade_bounds [OF pos] have lo: "2 powi b \<le> x" and hi: "x < 2 powi (b + 1)"
    unfolding b_def by simp_all
  from powi_exp_less [OF x hi] have kb: "k \<le> b" by simp
  have q: "q = max (b - 52) (- 1074)" unfolding q_def b_def by (rule quantum_pos [OF pos])
  have flx: "fl x = of_int (round_half_even (x / 2 powi q)) * 2 powi q"
    using pos by (simp add: fl_def Let_def q_def)
  have p: "(0::real) < 2 powi q" by simp
  show ?thesis
  proof (cases "q \<le> k")
    case True
    define K :: int where "K = 2 ^ nat (k - q)"
    have K: "real_of_int K = 2 powi (k - q)"
      using True by (simp add: K_def power_int_def)
    have "2 powi (k - q) = 2 powi k / (2::real) powi q" by (simp add: power_int_diff)
    also have "\<dots> \<le> x / 2 powi q" using x p by (simp add: divide_right_mono)
    finally have "real_of_int K \<le> x / 2 powi q" unfolding K .
    then have "K \<le> round_half_even (x / 2 powi q)" by (rule round_half_even_ge)
    then have "real_of_int K * 2 powi q \<le> of_int (round_half_even (x / 2 powi q)) * 2 powi q"
      using p by (intro mult_right_mono) simp_all
    moreover have "real_of_int K * 2 powi q = 2 powi k"
      unfolding K by (simp add: power_int_diff)
    ultimately show ?thesis unfolding flx by simp
  next
    case False
    with k q have qb: "q = b - 52" by linarith
    have "(1::real) \<le> 2 powi 52" by simp
    also have "\<dots> = 2 powi b / (2::real) powi q" unfolding qb by (simp add: power_int_diff)
    also have "\<dots> \<le> x / 2 powi q" using lo p by (simp add: divide_right_mono)
    finally have "real_of_int 1 \<le> x / 2 powi q" by simp
    then have "1 \<le> round_half_even (x / 2 powi q)" by (rule round_half_even_ge)
    then have r1: "(1::real) \<le> of_int (round_half_even (x / 2 powi q))" by simp
    have "1 * 2 powi q \<le> of_int (round_half_even (x / 2 powi q)) * (2::real) powi q"
      using r1 p by (intro mult_right_mono) simp_all
    then have A: "2 powi q \<le> of_int (round_half_even (x / 2 powi q)) * (2::real) powi q"
      by (simp only: mult_1)
    have B: "(2::real) powi k \<le> 2 powi q"
      using False by (intro power_int_increasing) simp_all
    from A B show ?thesis unfolding flx by linarith
  qed
qed

lemma fl_le_pow2:
  assumes k: "- 1074 \<le> k" and pos: "0 < x" and x: "x \<le> 2 powi k"
  shows "fl x \<le> 2 powi k"
proof -
  define b where "b = binade x"
  define q where "q = quantum x"
  from binade_bounds [OF pos] have lo: "2 powi b \<le> x" and hi: "x < 2 powi (b + 1)"
    unfolding b_def by simp_all
  from powi_exp_le [OF lo x] have bk: "b \<le> k" .
  have q: "q = max (b - 52) (- 1074)" unfolding q_def b_def by (rule quantum_pos [OF pos])
  with bk k have qk: "q \<le> k" by linarith
  have flx: "fl x = of_int (round_half_even (x / 2 powi q)) * 2 powi q"
    using pos by (simp add: fl_def Let_def q_def)
  have p: "(0::real) < 2 powi q" by simp
  define K :: int where "K = 2 ^ nat (k - q)"
  have K: "real_of_int K = 2 powi (k - q)"
    using qk by (simp add: K_def power_int_def)
  have "x / 2 powi q \<le> 2 powi k / (2::real) powi q" using x p by (simp add: divide_right_mono)
  also have "\<dots> = 2 powi (k - q)" by (simp add: power_int_diff)
  finally have "x / 2 powi q \<le> real_of_int K" unfolding K .
  then have "round_half_even (x / 2 powi q) \<le> K" by (rule round_half_even_le)
  then have "of_int (round_half_even (x / 2 powi q)) * 2 powi q \<le> real_of_int K * 2 powi q"
    using p by (intro mult_right_mono) simp_all
  moreover have "real_of_int K * 2 powi q = 2 powi k"
    unfolding K by (simp add: power_int_diff)
  ultimately show ?thesis unfolding flx by simp
qed

lemma fl_underflow:
  assumes "\<bar>x\<bar> < 2 powi (- 1075)"
  shows "fl x = 0"
proof (cases "x = 0")
  case True
  then show ?thesis by (simp add: fl_def)
next
  case False
  then have pos: "0 < \<bar>x\<bar>" by simp
  from binade_bounds [OF pos] have lo: "2 powi binade \<bar>x\<bar> \<le> \<bar>x\<bar>" by simp
  from powi_exp_less [OF lo assms] have "binade \<bar>x\<bar> < - 1075" .
  then have q: "quantum x = - 1074" by (simp add: quantum_def)
  have "\<bar>x / 2 powi (- 1074)\<bar> = \<bar>x\<bar> / 2 powi (- 1074)" by (simp add: abs_divide)
  also have "\<dots> < 2 powi (- 1075) / 2 powi (- 1074)"
    using assms by (intro divide_strict_right_mono) simp_all
  also have "\<dots> = (1 / 2 :: real)" by (simp add: power_int_minus)
  finally have "round_half_even (x / 2 powi (- 1074)) = 0" by (rule round_half_even_small)
  then show ?thesis using False by (simp add: fl_def Let_def q)
qed

lemma fl_error:
  assumes "2 powi (- 1022) \<le> \<bar>x\<bar>"
  shows "\<bar>fl x - x\<bar> \<le> \<bar>x\<bar> / 2 ^ 53"
proof -
  have pos: "0 < \<bar>x\<bar>" using assms by (smt (verit) zero_less_power_int)
  then have x0: "x \<noteq> 0" by simp
  from binade_bounds [OF pos] have lo: "2 powi binade \<bar>x\<bar> \<le> \<bar>x\<bar>"
    and hi: "\<bar>x\<bar> < 2 powi (binade \<bar>x\<bar> + 1)" by simp_all
  from powi_exp_less [OF assms hi] have "- 1022 \<le> binade \<bar>x\<bar>" by simp
  then have q: "quantum x = binade \<bar>x\<bar> - 52" by (simp add: quantum_def)
  define y where "y = x / 2 powi quantum x"
  have p: "(0::real) < 2 powi quantum x" by simp
  have x: "x = y * 2 powi quantum x" unfolding y_def by simp
  have "fl x - x = (of_int (round_half_even y) - y) * 2 powi quantum x"
    using x0 by (simp add: fl_def Let_def y_def [symmetric] x [symmetric] algebra_simps)
  then have "\<bar>fl x - x\<bar> = \<bar>of_int (round_half_even y) - y\<bar> * 2 powi quantum x"
    by (simp add: abs_mult)
  also have "\<dots> \<le> 1 / 2 * 2 powi quantum x"
    using round_half_even_error [of y] p by (intro mult_right_mono) simp_all
  also have "\<dots> = 2 powi binade \<bar>x\<bar> / 2 ^ 53"
    unfolding q by (simp add: power_int_diff)
  also have "\<dots> \<le> \<bar>x\<bar> / 2 ^ 53"
    using lo by (simp add: divide_right_mono)
  finally show ?thesis .
qed

text \<open>Below the normal range the error is at most half of the smallest step.\<close>

lemma fl_error_subnormal:
  assumes "\<bar>x\<bar> < 2 powi (- 1022)"
  shows "\<bar>fl x - x\<bar> \<le> 2 powi (- 1075)"
proof (cases "x = 0")
  case True
  then show ?thesis by (simp add: fl_def)
next
  case False
  then have pos: "0 < \<bar>x\<bar>" by simp
  from binade_bounds [OF pos] have lo: "2 powi binade \<bar>x\<bar> \<le> \<bar>x\<bar>" by simp
  from powi_exp_less [OF lo assms] have "binade \<bar>x\<bar> < - 1022" .
  then have q: "quantum x = - 1074" by (simp add: quantum_def)
  define y where "y = x / 2 powi quantum x"
  have p: "(0::real) < 2 powi quantum x" by simp
  have x: "x = y * 2 powi quantum x" unfolding y_def by simp
  have "fl x - x = (of_int (round_half_even y) - y) * 2 powi quantum x"
    using False by (simp add: fl_def Let_def y_def [symmetric] x [symmetric] algebra_simps)
  then have "\<bar>fl x - x\<bar> = \<bar>of_int (round_half_even y) - y\<bar> * 2 powi quantum x"
    by (simp add: abs_mult)
  also have "\<dots> \<le> 1 / 2 * 2 powi quantum x"
    using round_half_even_error [of y] p by (intro mult_right_mono) simp_all
  also have "\<dots> = 2 powi (quantum x - 1)"
    by (simp add: power_int_diff)
  also have "quantum x - 1 = - 1075"
    using q by simp
  finally show ?thesis .
qed

lemma fl_error_mixed: "\<bar>fl x - x\<bar> \<le> \<bar>x\<bar> / 2 ^ 53 + 2 powi (- 1075)"
proof -
  define t :: real where "t = 2 powi (- 1075)"
  have t0: "0 \<le> t" by (simp add: t_def)
  have r0: "0 \<le> \<bar>x\<bar> / 2 ^ 53" by simp
  show ?thesis
  proof (cases "2 powi (- 1022) \<le> \<bar>x\<bar>")
    case True
    from fl_error [OF this] t0 have "\<bar>fl x - x\<bar> \<le> \<bar>x\<bar> / 2 ^ 53 + t" by linarith
    then show ?thesis by (simp only: t_def)
  next
    case False
    then have "\<bar>x\<bar> < 2 powi (- 1022)" by (rule not_le_imp_less)
    from fl_error_subnormal [OF this] have "\<bar>fl x - x\<bar> \<le> t" by (simp only: t_def)
    with r0 have "\<bar>fl x - x\<bar> \<le> \<bar>x\<bar> / 2 ^ 53 + t" by linarith
    then show ?thesis by (simp only: t_def)
  qed
qed

lemma fl_abs: "\<bar>fl x\<bar> = fl \<bar>x\<bar>"
proof (cases "0 \<le> x")
  case True
  then show ?thesis using fl_nonneg [of x] by simp
next
  case False
  then have "x \<le> 0" by simp
  from fl_nonpos [OF this] False show ?thesis by (simp add: fl_minus)
qed

lemma overflows_large: "2 powi 1024 \<le> \<bar>x\<bar> \<Longrightarrow> overflows x"
  unfolding overflows_def fl_abs by (rule fl_ge_pow2) simp_all

lemma not_overflows_le:
  assumes k: "- 1074 \<le> k" "k < 1024" and x: "\<bar>x\<bar> \<le> 2 powi k"
  shows "\<not> overflows x"
proof (cases "x = 0")
  case True
  then show ?thesis by (simp add: overflows_def fl_def)
next
  case False
  then have "0 < \<bar>x\<bar>" by simp
  from fl_le_pow2 [OF k(1) this x] have "\<bar>fl x\<bar> \<le> 2 powi k" by (simp add: fl_abs)
  moreover have "(2::real) powi k < 2 powi 1024"
    using k(2) by (intro power_int_strict_increasing) simp_all
  ultimately show ?thesis by (simp add: overflows_def)
qed

lemma fl_le_neg_pow2:
  assumes "- 1074 \<le> k" and "x \<le> - (2 powi k)"
  shows "fl x \<le> - (2 powi k)"
  using fl_ge_pow2 [OF assms(1), of "- x"] assms(2) by (simp add: fl_minus)

lemma float_mul_nonpositive:
  assumes "0 \<le> a" "b \<le> 0"
  shows "nonpositive (float_mul a b)"
proof -
  from assms have le: "a * b \<le> 0" by (simp add: mult_nonneg_nonpos)
  show ?thesis
  proof (cases "overflows (a * b)")
    case True
    then have "a * b \<noteq> 0" by (auto simp: overflows_def fl_def)
    with le True show ?thesis by (simp add: float_mul_def)
  next
    case False
    with fl_nonpos [OF le] show ?thesis by (simp add: float_mul_def)
  qed
qed

lemma float_mul_negative:
  assumes a: "1 \<le> a" and b: "b \<le> - (2 powi (- 1074))"
  shows "negative (float_mul a b)"
proof -
  define t :: real where "t = 2 powi (- 1074)"
  have p: "0 < t" by (simp add: t_def)
  from b have bt: "b \<le> - t" by (simp only: t_def)
  from bt p have b0: "b < 0" by linarith
  have "a * b \<le> 1 * b" using a b0 by (intro mult_right_mono_neg) simp_all
  then have "a * b \<le> b" by (simp only: mult_1)
  with bt have le: "a * b \<le> - t" by linarith
  with p have neg: "a * b < 0" by linarith
  from le have "a * b \<le> - (2 powi (- 1074))" by (simp only: t_def)
  from fl_le_neg_pow2 [OF _ this] have "fl (a * b) \<le> - t" by (simp add: t_def)
  with p have "fl (a * b) < 0" by linarith
  with neg show ?thesis by (simp add: float_mul_def)
qed

lemma fl_nat_ge_1: "0 < n \<Longrightarrow> 1 \<le> fl (real n)"
  using fl_ge_pow2 [of 0 "real n"] by simp

lemma fl_nat_nonneg: "0 \<le> fl (real n)"
  by (simp add: fl_nonneg)

lemma float_mul_zero: "float_mul x 0 = Finite 0"
  by (simp add: float_mul_def overflows_def fl_def)

lemma float_mul_commute: "float_mul x y = float_mul y x"
  by (simp add: float_mul_def mult.commute)

lemmas fl_eval = fmul_def fadd_def fdiv_def fl_def quantum_def binade_def round_half_even_def
  Let_def bit_length.simps

lemma fdiv_1_1000: "fdiv 1 1000 = 1152921504606847 / 1152921504606846976"
  by (simp add: fl_eval)

text \<open>
  To \<open>cm3\<close> and back by the reciprocal factor, every operation rounded: while nothing
  underflows or overflows, the result is the volume within four units of roundoff.
\<close>

lemma round_trip_tolerance:
  assumes lo: "2 powi (- 1012) \<le> \<bar>v\<bar>" and hi: "\<bar>v\<bar> \<le> 2 powi 1000"
  shows "\<bar>fmul (fmul v (fdiv 1 1000)) 1000 - v\<bar> \<le> \<bar>v\<bar> / 2 ^ 51
    \<and> \<not> overflows (v * fdiv 1 1000) \<and> \<not> overflows (fmul v (fdiv 1 1000) * 1000)"
proof -
  let ?f = "1152921504606847 / 1152921504606846976 :: real"
  let ?u = "1 / 2 ^ 53 :: real"
  define c where "c = fl (v * ?f)"
  define b where "b = fl (c * 1000)"
  define a where "a = \<bar>v\<bar>"
  have a0: "0 \<le> a" by (simp add: a_def)
  have vf: "\<bar>v * ?f\<bar> = a * ?f" by (simp add: a_def abs_mult)
  have f_lo: "(2::real) powi (- 10) \<le> ?f" by (simp add: power_int_minus)
  have "(2::real) powi (- 1022) = 2 powi (- 1012) * 2 powi (- 10)"
    by (simp flip: power_int_add)
  also have "\<dots> \<le> a * ?f"
    using lo f_lo unfolding a_def by (intro mult_mono) simp_all
  finally have vf_lo: "2 powi (- 1022) \<le> \<bar>v * ?f\<bar>" unfolding vf .
  have "a * ?f \<le> 2 powi 1000 * 1" using hi unfolding a_def by (intro mult_mono) simp_all
  then have vf_hi: "\<bar>v * ?f\<bar> \<le> 2 powi 1000" unfolding vf by simp
  have no1: "\<not> overflows (v * ?f)"
    by (rule not_overflows_le [OF _ _ vf_hi]) simp_all
  have c_abs: "\<bar>c\<bar> = fl \<bar>v * ?f\<bar>" unfolding c_def by (rule fl_abs)
  have c_lo: "2 powi (- 1022) \<le> \<bar>c\<bar>" unfolding c_abs by (rule fl_ge_pow2 [OF _ vf_lo]) simp
  have c_hi: "\<bar>c\<bar> \<le> 2 powi 1000"
  proof -
    have "0 < \<bar>v * ?f\<bar>" using vf_lo by (smt (verit) zero_less_power_int)
    from fl_le_pow2 [OF _ this vf_hi] show ?thesis unfolding c_abs by simp
  qed
  have "\<bar>c * 1000\<bar> \<le> 2 powi 1000 * 2 powi 10"
    using c_hi unfolding abs_mult by (intro mult_mono) simp_all
  then have c1000_hi: "\<bar>c * 1000\<bar> \<le> 2 powi 1010" by (simp flip: power_int_add)
  have no2: "\<not> overflows (c * 1000)"
    by (rule not_overflows_le [OF _ _ c1000_hi]) simp_all
  have "2 powi (- 1022) * 1 \<le> \<bar>c\<bar> * 1000" using c_lo by (intro mult_mono) simp_all
  then have c1000_lo: "2 powi (- 1022) \<le> \<bar>c * 1000\<bar>" by (simp add: abs_mult)
  have e1: "\<bar>c - v * ?f\<bar> \<le> a * ?f * ?u"
    using fl_error [OF vf_lo] unfolding c_def vf by simp
  have "\<bar>c\<bar> \<le> \<bar>v * ?f\<bar> + \<bar>c - v * ?f\<bar>" by linarith
  with e1 have c_le: "\<bar>c\<bar> \<le> a * ?f + a * ?f * ?u" unfolding vf by linarith
  have "\<bar>b - c * 1000\<bar> \<le> \<bar>c * 1000\<bar> * ?u"
    using fl_error [OF c1000_lo] unfolding b_def by simp
  then have e2: "\<bar>b - c * 1000\<bar> \<le> \<bar>c\<bar> * (1000 * ?u)" by (simp add: abs_mult)
  have "\<bar>c\<bar> * (1000 * ?u) \<le> (a * ?f + a * ?f * ?u) * (1000 * ?u)"
    using c_le by (intro mult_right_mono) simp_all
  with e2 have e2': "\<bar>b - c * 1000\<bar> \<le> (a * ?f + a * ?f * ?u) * (1000 * ?u)" by linarith
  have "v * ?f * 1000 - v = v * (?f * 1000 - 1)" by (simp add: algebra_simps)
  then have "\<bar>v * ?f * 1000 - v\<bar> = a * \<bar>?f * 1000 - 1\<bar>" by (simp add: a_def abs_mult)
  also have "\<bar>?f * 1000 - 1\<bar> = (24 / 1152921504606846976 :: real)" by simp
  finally have e3: "\<bar>v * ?f * 1000 - v\<bar> = a * (24 / 1152921504606846976)" .
  have "b - v = (b - c * 1000) + 1000 * (c - v * ?f) + (v * ?f * 1000 - v)" by simp
  then have "\<bar>b - v\<bar> \<le> \<bar>b - c * 1000\<bar> + 1000 * \<bar>c - v * ?f\<bar> + \<bar>v * ?f * 1000 - v\<bar>"
    by linarith
  with e1 e2' e3 have "\<bar>b - v\<bar> \<le>
      (a * ?f + a * ?f * ?u) * (1000 * ?u) + 1000 * (a * ?f * ?u) + a * (24 / 1152921504606846976)"
    by linarith
  also have "\<dots> = a * ((?f + ?f * ?u) * (1000 * ?u) + 1000 * (?f * ?u) + 24 / 1152921504606846976)"
    by (simp add: algebra_simps)
  also have "\<dots> \<le> a * (1 / 2 ^ 51)"
    using a0 by (intro mult_left_mono) simp_all
  finally have "\<bar>b - v\<bar> \<le> a / 2 ^ 51" by simp
  with no1 no2 show ?thesis
    by (simp add: b_def c_def a_def fmul_def fdiv_1_1000)
qed

text \<open>
  The same way there and back for every volume up to \<open>2 powi 1000\<close>, the small ones
  included: the error is the relative one plus a few of the smallest steps.
\<close>

lemma round_trip_absolute:
  assumes hi: "\<bar>v\<bar> \<le> 2 powi 1000"
  shows "\<bar>fmul (fmul v (fdiv 1 1000)) 1000 - v\<bar> \<le> \<bar>v\<bar> / 2 ^ 51 + 2 powi (- 1065)
    \<and> \<not> overflows (v * fdiv 1 1000) \<and> \<not> overflows (fmul v (fdiv 1 1000) * 1000)"
proof -
  let ?f = "1152921504606847 / 1152921504606846976 :: real"
  let ?u = "1 / 2 ^ 53 :: real"
  define t :: real where "t = 2 powi (- 1075)"
  define c where "c = fl (v * ?f)"
  define b where "b = fl (c * 1000)"
  define a where "a = \<bar>v\<bar>"
  have a0: "0 \<le> a" by (simp add: a_def)
  have t0: "0 \<le> t" by (simp add: t_def)
  have vf: "\<bar>v * ?f\<bar> = a * ?f" by (simp add: a_def abs_mult)
  have "a * ?f \<le> 2 powi 1000 * 1" using hi unfolding a_def by (intro mult_mono) simp_all
  then have vf_hi: "\<bar>v * ?f\<bar> \<le> 2 powi 1000" unfolding vf by simp
  have no1: "\<not> overflows (v * ?f)"
    by (rule not_overflows_le [OF _ _ vf_hi]) simp_all
  have c_abs: "\<bar>c\<bar> = fl \<bar>v * ?f\<bar>" unfolding c_def by (rule fl_abs)
  have c_hi: "\<bar>c\<bar> \<le> 2 powi 1000"
  proof (cases "v * ?f = 0")
    case True
    then have "c = 0" by (simp add: c_def fl_def)
    then show ?thesis by simp
  next
    case False
    then have "0 < \<bar>v * ?f\<bar>" by simp
    from fl_le_pow2 [OF _ this vf_hi] show ?thesis unfolding c_abs by simp
  qed
  have "\<bar>c * 1000\<bar> \<le> 2 powi 1000 * 2 powi 10"
    using c_hi unfolding abs_mult by (intro mult_mono) simp_all
  then have c1000_hi: "\<bar>c * 1000\<bar> \<le> 2 powi 1010" by (simp flip: power_int_add)
  have no2: "\<not> overflows (c * 1000)"
    by (rule not_overflows_le [OF _ _ c1000_hi]) simp_all
  have "\<bar>c - v * ?f\<bar> \<le> \<bar>v * ?f\<bar> / 2 ^ 53 + t"
    unfolding c_def t_def by (rule fl_error_mixed)
  then have e1: "\<bar>c - v * ?f\<bar> \<le> a * ?f * ?u + t"
    unfolding vf by simp
  have "\<bar>c\<bar> \<le> \<bar>v * ?f\<bar> + \<bar>c - v * ?f\<bar>" by linarith
  with e1 have c_le: "\<bar>c\<bar> \<le> a * ?f + a * ?f * ?u + t" unfolding vf by linarith
  have "\<bar>b - c * 1000\<bar> \<le> \<bar>c * 1000\<bar> / 2 ^ 53 + t"
    unfolding b_def t_def by (rule fl_error_mixed)
  then have e2: "\<bar>b - c * 1000\<bar> \<le> \<bar>c\<bar> * (1000 * ?u) + t" by (simp add: abs_mult)
  have "\<bar>c\<bar> * (1000 * ?u) \<le> (a * ?f + a * ?f * ?u + t) * (1000 * ?u)"
    using c_le by (intro mult_right_mono) simp_all
  with e2 have e2': "\<bar>b - c * 1000\<bar> \<le> (a * ?f + a * ?f * ?u + t) * (1000 * ?u) + t"
    by linarith
  have "v * ?f * 1000 - v = v * (?f * 1000 - 1)" by (simp add: algebra_simps)
  then have "\<bar>v * ?f * 1000 - v\<bar> = a * \<bar>?f * 1000 - 1\<bar>" by (simp add: a_def abs_mult)
  also have "\<bar>?f * 1000 - 1\<bar> = (24 / 1152921504606846976 :: real)" by simp
  finally have e3: "\<bar>v * ?f * 1000 - v\<bar> = a * (24 / 1152921504606846976)" .
  have "b - v = (b - c * 1000) + 1000 * (c - v * ?f) + (v * ?f * 1000 - v)" by simp
  then have split: "\<bar>b - v\<bar> \<le> \<bar>b - c * 1000\<bar> + 1000 * \<bar>c - v * ?f\<bar> + \<bar>v * ?f * 1000 - v\<bar>"
    by linarith
  have sum: "d \<le> y2 + 1000 * y1 + y3 \<Longrightarrow> y1 \<le> x1 \<Longrightarrow> y2 \<le> x2 \<Longrightarrow> y3 = x3
      \<Longrightarrow> d \<le> x2 + 1000 * x1 + x3" for d y1 y2 y3 x1 x2 x3 :: real
    by linarith
  from sum [OF split e1 e2' e3] have "\<bar>b - v\<bar> \<le>
      ((a * ?f + a * ?f * ?u + t) * (1000 * ?u) + t) + 1000 * (a * ?f * ?u + t)
        + a * (24 / 1152921504606846976)" .
  also have "\<dots> = a * ((?f + ?f * ?u) * (1000 * ?u) + 1000 * (?f * ?u) + 24 / 1152921504606846976)
      + t * (1000 * ?u + 1001)"
    by (simp add: algebra_simps)
  also have "\<dots> \<le> a * (1 / 2 ^ 51) + t * 1024"
  proof (intro add_mono mult_left_mono)
    show "(?f + ?f * ?u) * (1000 * ?u) + 1000 * (?f * ?u) + 24 / 1152921504606846976
        \<le> (1 / 2 ^ 51 :: real)" by simp
    show "1000 * ?u + 1001 \<le> (1024 :: real)" by simp
  qed (rule a0, rule t0)
  also have "t * 1024 = 2 powi (- 1075) * 2 powi 10"
    by (simp add: t_def)
  also have "\<dots> = 2 powi (- 1065)"
    by (simp flip: power_int_add)
  finally have "\<bar>b - v\<bar> \<le> a / 2 ^ 51 + 2 powi (- 1065)" by simp
  with no1 no2 show ?thesis
    by (simp add: b_def c_def a_def fmul_def fdiv_1_1000)
qed

section \<open>The exact reconstructor\<close>

text \<open>
  Claim C3. \<open>sewing_to_solids\<close> sews first, at the tolerance it is given, and enumerates
  the solids of the sewn shape. When that enumeration finds a solid, the solids found are
  the result and \<open>BRepBuilderAPI_MakeSolid\<close> is never called. When it finds none, every
  shell of the sewn shape is classified once, in order, and the result holds the solid of
  exactly the shells whose classification is done. So the result is either the solids
  found directly or made of converted shells only, and it is the empty list, returned as
  any other, when no solid is found and no shell converts.
\<close>

theorem sewing_to_solids_reconstructs:
  assumes run: "sewing_to_solids w shape tol = (evs, solids)"
    and sewed: "sewed = SewedShape w tol shape"
    and direct: "direct = TopExp_Explorer w sewed TopAbs_SOLID"
    and shells: "shells = TopExp_Explorer w sewed TopAbs_SHELL"
  shows "take 1 evs = [Call_Sewing tol]
    \<and> (direct \<noteq> [] \<longrightarrow> solids = direct \<and> MakeSolid_calls evs = [])
    \<and> (direct = [] \<longrightarrow> MakeSolid_calls evs = shells
          \<and> solids = map (Solid w) (filter (IsDone w) shells))
    \<and> (solids = direct \<or> set solids \<subseteq> Solid w ` {shell \<in> set shells. IsDone w shell})
    \<and> (direct = [] \<and> (\<forall>shell \<in> set shells. \<not> IsDone w shell) \<longrightarrow> solids = [])"
proof (cases "direct = []")
  case True
  with run sewed direct shells
  have evs: "evs = Call_Sewing tol # map Call_MakeSolid shells"
    and sol: "solids = map (Solid w) (filter (IsDone w) shells)"
    by (simp_all add: sewing_to_solids_eq Let_def)
  have none: "(\<forall>shell \<in> set shells. \<not> IsDone w shell) \<longrightarrow> solids = []"
    by (simp add: sol filter_empty_conv)
  have sub: "set solids \<subseteq> Solid w ` {shell \<in> set shells. IsDone w shell}"
    by (auto simp: sol)
  from True evs sol none sub show ?thesis
    by (simp add: MakeSolid_calls_map)
next
  case False
  with run sewed direct
  have "evs = [Call_Sewing tol]" and "solids = direct"
    by (simp_all add: sewing_to_solids_eq Let_def)
  with False show ?thesis by simp
qed

theorem sewing_to_solids_reconstructs_witness:
  "sewing_to_solids three_shells 0 (5 / 100) =
     ([Call_Sewing (5 / 100), Call_MakeSolid 7, Call_MakeSolid 8, Call_MakeSolid 9], [107, 109])
   \<and> take 1 [Call_Sewing (5 / 100), Call_MakeSolid 7, Call_MakeSolid 8, Call_MakeSolid (9::nat)]
       = [Call_Sewing (5 / 100)]
   \<and> MakeSolid_calls [Call_Sewing (5 / 100), Call_MakeSolid 7, Call_MakeSolid 8, Call_MakeSolid (9::nat)]
       = [7, 8, 9]
   \<and> [107, 109] = map (Solid three_shells) (filter (IsDone three_shells) [7, 8, 9])"
proof -
  have run: "sewing_to_solids three_shells 0 (5 / 100) =
     ([Call_Sewing (5 / 100), Call_MakeSolid 7, Call_MakeSolid 8, Call_MakeSolid 9], [107, 109])"
    by (simp add: sewing_to_solids_def three_shells_def scenario_def)
  have sh: "[7, 8, 9] = TopExp_Explorer three_shells (SewedShape three_shells (5 / 100) 0) TopAbs_SHELL"
    and di: "[] = TopExp_Explorer three_shells (SewedShape three_shells (5 / 100) 0) TopAbs_SOLID"
    by (simp_all add: three_shells_def scenario_def)
  from sewing_to_solids_reconstructs [OF run refl di sh] run show ?thesis
    by simp
qed

section \<open>Volumes of the solids\<close>

text \<open>
  Claim C4. \<open>solids_volume\<close> keeps the solids in the order it is given them and numbers
  them from 0. The volume of each entry is the mass the kernel integrates for that solid
  times the unit factor, and the centroid is the kernel's: nothing inspects or changes
  the sign (at factor 1 the entry is the kernel's pair as it is). The total is the sum of
  the entries' volumes, accumulated from 0 in that order. All of this holds of the run in
  exact arithmetic and of the run with every operation rounded, where the product and
  the sum are the rounded ones.
\<close>

theorem solids_volume_total:
  assumes run: "solids_volume w solids unit_scale = (results, tot)"
    and run64: "solids_volume_f64 w solids unit_scale = (results64, tot64)"
  shows "tot = sum_list (map (\<lambda>(idx, vm, com). vm) results)
    \<and> tot = foldl (+) 0 (map (\<lambda>(idx, vm, com). vm) results)
    \<and> length results = length solids
    \<and> map fst results = [0..<length solids]
    \<and> (\<forall>i < length solids.
          results ! i = (i, Mass w (solids ! i) * unit_scale, CentreOfMass w (solids ! i)))
    \<and> fst (solids_volume w solids 1) =
          map (\<lambda>(i, solid). (i, Mass w solid, CentreOfMass w solid)) (enumerate 0 solids)
    \<and> tot64 = foldl fadd 0 (map (\<lambda>(idx, vm, com). vm) results64)
    \<and> length results64 = length solids
    \<and> map fst results64 = [0..<length solids]
    \<and> (\<forall>i < length solids.
          results64 ! i =
            (i, fmul (Mass w (solids ! i)) unit_scale, CentreOfMass w (solids ! i)))
    \<and> fst (solids_volume_f64 w solids 1) =
          map (\<lambda>(i, solid). (i, fl (Mass w solid), CentreOfMass w solid)) (enumerate 0 solids)"
proof -
  from run have res: "results =
      map (\<lambda>(i, s). (i, Mass w s * unit_scale, CentreOfMass w s)) (enumerate 0 solids)"
    and tot: "tot = sum_list (map (\<lambda>s. Mass w s * unit_scale) solids)"
    by (simp_all add: solids_volume_eq)
  have vols: "map (\<lambda>(idx, vm, com). vm) results = map (\<lambda>s. Mass w s * unit_scale) solids"
    unfolding res
    using map_enumerate_snd [of "\<lambda>s. Mass w s * unit_scale" 0 solids]
    by (simp add: case_prod_unfold comp_def)
  have len: "length results = length solids"
    by (simp add: res)
  have idx: "map fst results = [0..<length solids]"
    unfolding res by (simp add: case_prod_unfold comp_def map_fst_enumerate [of 0, simplified])
  have nth: "\<forall>i < length solids.
      results ! i = (i, Mass w (solids ! i) * unit_scale, CentreOfMass w (solids ! i))"
    by (simp add: res nth_enumerate_eq)
  have asis: "fst (solids_volume w solids 1) =
      map (\<lambda>(i, solid). (i, Mass w solid, CentreOfMass w solid)) (enumerate 0 solids)"
    by (simp add: solids_volume_eq)
  from run64 have res64: "results64 =
      map (\<lambda>(i, s). (i, fmul (Mass w s) unit_scale, CentreOfMass w s)) (enumerate 0 solids)"
    and tot64: "tot64 = foldl fadd 0 (map (\<lambda>s. fmul (Mass w s) unit_scale) solids)"
    by (simp_all add: solids_volume_f64_eq)
  have vols64: "map (\<lambda>(idx, vm, com). vm) results64 =
      map (\<lambda>s. fmul (Mass w s) unit_scale) solids"
    unfolding res64
    using map_enumerate_snd [of "\<lambda>s. fmul (Mass w s) unit_scale" 0 solids]
    by (simp add: case_prod_unfold comp_def)
  have len64: "length results64 = length solids"
    by (simp add: res64)
  have idx64: "map fst results64 = [0..<length solids]"
    unfolding res64 by (simp add: case_prod_unfold comp_def map_fst_enumerate [of 0, simplified])
  have nth64: "\<forall>i < length solids.
      results64 ! i = (i, fmul (Mass w (solids ! i)) unit_scale, CentreOfMass w (solids ! i))"
    by (simp add: res64 nth_enumerate_eq)
  have asis64: "fst (solids_volume_f64 w solids 1) =
      map (\<lambda>(i, solid). (i, fl (Mass w solid), CentreOfMass w solid)) (enumerate 0 solids)"
    by (simp add: solids_volume_f64_eq fmul_def)
  have exact: "tot = sum_list (map (\<lambda>(idx, vm, com). vm) results)
    \<and> tot = foldl (+) 0 (map (\<lambda>(idx, vm, com). vm) results)"
    using vols tot by (simp add: foldl_add_sum_list)
  have rounded: "tot64 = foldl fadd 0 (map (\<lambda>(idx, vm, com). vm) results64)"
    using vols64 tot64 by simp
  from exact len idx nth asis rounded len64 idx64 nth64 asis64 show ?thesis
    by blast
qed

text \<open>
  Three solids of masses 1000, \<open>-13\<close> and 2 at the factor of \<open>cm3\<close>. Rounded, the run
  returns what Python prints as \<open>1.0\<close>, \<open>-0.013000000000000001\<close>, \<open>0.002\<close> and \<open>0.989\<close>.
\<close>

theorem solids_volume_total_witness:
  "solids_volume closed_cube [1000, 13, 2] (1 / 1000) =
     ([(0, 1, (5, 5, 5)), (1, - 13 / 1000, (5, 5, 5)), (2, 2 / 1000, (5, 5, 5))], 989 / 1000)
   \<and> solids_volume_f64 closed_cube [1000, 13, 2] (fdiv 1 1000) =
     ([(0, 1, (5, 5, 5)), (1, - 3746994889972253 / 288230376151711744, (5, 5, 5)),
       (2, 1152921504606847 / 576460752303423488, (5, 5, 5))],
      8908120062938841 / 9007199254740992)
   \<and> (989 / 1000 :: real) = sum_list [1, - 13 / 1000, 2 / 1000]
   \<and> (8908120062938841 / 9007199254740992 :: real) =
       foldl fadd 0 [1, - 3746994889972253 / 288230376151711744,
                     1152921504606847 / 576460752303423488]"
proof -
  have run: "solids_volume closed_cube [1000, 13, 2] (1 / 1000) =
     ([(0, 1, (5, 5, 5)), (1, - 13 / 1000, (5, 5, 5)), (2, 2 / 1000, (5, 5, 5))], 989 / 1000)"
    by (simp add: solids_volume_def closed_cube_def scenario_def)
  have "solids_volume_f64 closed_cube [1000, 13, 2] (1152921504606847 / 1152921504606846976) =
     ([(0, 1, (5, 5, 5)), (1, - 3746994889972253 / 288230376151711744, (5, 5, 5)),
       (2, 1152921504606847 / 576460752303423488, (5, 5, 5))],
      8908120062938841 / 9007199254740992)"
    by (simp add: solids_volume_f64_def closed_cube_def scenario_def fl_eval)
  then have run64: "solids_volume_f64 closed_cube [1000, 13, 2] (fdiv 1 1000) =
     ([(0, 1, (5, 5, 5)), (1, - 3746994889972253 / 288230376151711744, (5, 5, 5)),
       (2, 1152921504606847 / 576460752303423488, (5, 5, 5))],
      8908120062938841 / 9007199254740992)"
    by (simp only: fdiv_1_1000)
  from solids_volume_total [OF run surjective_pairing]
  have "(989 / 1000 :: real) = sum_list [1, - 13 / 1000, 2 / 1000]"
    by simp
  moreover from solids_volume_total [OF surjective_pairing run64]
  have "(8908120062938841 / 9007199254740992 :: real) =
       foldl fadd 0 [1, - 3746994889972253 / 288230376151711744,
                     1152921504606847 / 576460752303423488]"
    by simp
  ultimately show ?thesis using run run64 by blast
qed

text \<open>
  Claim C9, as amended. In exact arithmetic scaling commutes with the sum: at scale \<open>s\<close>
  each volume reported is \<open>s\<close> times the volume reported at scale 1, and the total is \<open>s\<close>
  times the sum of the masses the kernel returns, which is \<open>s\<close> times the total at scale 1.
  With every operation rounded the first part stays, for masses that are binary64 numbers;
  the total is the rounded sum of the rounded products, in the order of the solids.
\<close>

theorem solids_volume_scaling:
  "map (fst \<circ> snd) (fst (solids_volume w solids s)) =
     map (\<lambda>v. s * v) (map (fst \<circ> snd) (fst (solids_volume w solids 1)))
   \<and> snd (solids_volume w solids s) = s * sum_list (map (Mass w) solids)
   \<and> snd (solids_volume w solids s) = s * snd (solids_volume w solids 1)
   \<and> ((\<forall>solid \<in> set solids. fl (Mass w solid) = Mass w solid) \<longrightarrow>
        map (fst \<circ> snd) (fst (solids_volume_f64 w solids s)) =
          map (\<lambda>v. fmul s v) (map (fst \<circ> snd) (fst (solids_volume_f64 w solids 1))))
   \<and> snd (solids_volume_f64 w solids s) =
        foldl fadd 0 (map (\<lambda>solid. fmul (Mass w solid) s) solids)"
proof -
  have vols: "map (fst \<circ> snd) (fst (solids_volume w solids c)) = map (\<lambda>x. Mass w x * c) solids" for c
    using map_enumerate_snd [of "\<lambda>x. Mass w x * c" 0 solids]
    by (simp add: solids_volume_eq comp_def case_prod_unfold)
  have tot: "snd (solids_volume w solids c) = c * sum_list (map (Mass w) solids)" for c
    by (simp add: solids_volume_eq sum_list_const_mult mult.commute)
  have exact: "map (fst \<circ> snd) (fst (solids_volume w solids s)) =
      map (\<lambda>v. s * v) (map (fst \<circ> snd) (fst (solids_volume w solids 1)))"
    by (simp add: vols mult.commute)
  have vols64: "map (fst \<circ> snd) (fst (solids_volume_f64 w solids c)) =
      map (\<lambda>x. fmul (Mass w x) c) solids" for c
    using map_enumerate_snd [of "\<lambda>x. fmul (Mass w x) c" 0 solids]
    by (simp add: solids_volume_f64_eq comp_def case_prod_unfold)
  have rounded: "map (fst \<circ> snd) (fst (solids_volume_f64 w solids s)) =
      map (\<lambda>v. fmul s v) (map (fst \<circ> snd) (fst (solids_volume_f64 w solids 1)))"
    if "\<forall>solid \<in> set solids. fl (Mass w solid) = Mass w solid"
    using that by (simp add: vols64 fmul_def mult.commute)
  have tot64: "snd (solids_volume_f64 w solids s) =
      foldl fadd 0 (map (\<lambda>solid. fmul (Mass w solid) s) solids)"
    by (simp add: solids_volume_f64_eq)
  from exact tot [of s] tot [of 1] rounded tot64 show ?thesis
    by simp
qed

theorem solids_volume_scaling_witness:
  "fl (Mass closed_cube 1) = Mass closed_cube 1
   \<and> fl (Mass closed_cube 9) = Mass closed_cube 9
   \<and> map (fst \<circ> snd) (fst (solids_volume_f64 closed_cube [1, 9] (fdiv 1 1000))) =
       map (\<lambda>v. fmul (fdiv 1 1000) v)
         (map (fst \<circ> snd) (fst (solids_volume_f64 closed_cube [1, 9] 1)))"
proof -
  have rep1: "fl (Mass closed_cube 1) = Mass closed_cube 1"
    and rep9: "fl (Mass closed_cube 9) = Mass closed_cube 9"
    by (simp_all add: closed_cube_def scenario_def fl_eval)
  then have rep: "\<forall>solid \<in> set [1, 9]. fl (Mass closed_cube solid) = Mass closed_cube solid"
    by simp
  from solids_volume_scaling [of closed_cube "[1, 9]" "fdiv 1 1000"] rep rep1 rep9 show ?thesis
    by blast
qed

text \<open>
  The claim as stated fails of the rounded run: for masses 1 and 9 at the factor of
  \<open>cm3\<close> the total reported is not the factor times the unscaled total (in Python,
  \<open>0.010000000000000002\<close> against \<open>0.01\<close>).
\<close>

theorem solids_volume_scaling_counterexample:
  "snd (solids_volume_f64 closed_cube [1, 9] (fdiv 1 1000)) \<noteq>
     fmul (fdiv 1 1000) (snd (solids_volume_f64 closed_cube [1, 9] 1))"
proof -
  have scaled: "snd (solids_volume_f64 closed_cube [1, 9] (1152921504606847 / 1152921504606846976))
      = 1441151880758559 / 144115188075855872"
    by (simp add: solids_volume_f64_def closed_cube_def scenario_def fl_eval)
  have unscaled: "snd (solids_volume_f64 closed_cube [1, 9] 1) = 10"
    by (simp add: solids_volume_f64_def closed_cube_def scenario_def fl_eval)
  have prod: "fmul (1152921504606847 / 1152921504606846976) 10
      = 5764607523034235 / 576460752303423488"
    by (simp add: fl_eval)
  show ?thesis
    unfolding fdiv_1_1000 scaled unscaled prod by simp
qed

section \<open>The voxel approximators\<close>



lemma cal_fine_voxel_volume_f64_eq:
  "cal_fine_voxel_volume_f64 w mesh pitch =
     ([Call_voxelize pitch],
      if overflows (pitch ^ 3)
           \<or> overflows (real (n_cells w (voxelize w (triangulate w mesh) pitch)))
      then Inl OverflowError
      else Inr (voxelize w (triangulate w mesh) pitch,
                float_mul (fl (real (n_cells w (voxelize w (triangulate w mesh) pitch))))
                  (fl (pitch ^ 3))))"
  by (simp add: cal_fine_voxel_volume_f64_def float_pow_def float_of_nat_def Let_def)

lemma voxel_volume_mm3_f64_eq:
  "voxel_volume_mm3_f64 w mesh pitch =
     ([Call_voxelize pitch],
      if overflows (pitch ^ 3)
           \<or> overflows (real (n_cells w (voxelize w (triangulate w mesh) pitch)))
      then Inl OverflowError
      else Inr (voxelize w (triangulate w mesh) pitch,
                float_mul (fl (pitch ^ 3))
                  (fl (real (n_cells w (voxelize w (triangulate w mesh) pitch))))))"
  by (simp add: voxel_volume_mm3_f64_def float_pow_def float_of_nat_def Let_def)

lemma cube_nonpos: "pitch \<le> 0 \<Longrightarrow> pitch ^ 3 \<le> (0::real)"
  by (simp add: power_le_zero_eq)

lemma cube_neg: "pitch < 0 \<Longrightarrow> pitch ^ 3 < (0::real)"
  by simp

text \<open>
  Claim C10, as amended. Neither approximator looks at the sign of the pitch: every
  pitch is handed to the voxelizer as it is given. After that the formula raises
  \<open>OverflowError\<close> when the cube of the pitch overflows, which it does from \<open>2 powi 1024\<close>
  on and does not up to \<open>2 powi 1023\<close>, or when the number of cells is too large for a
  float, which it is not up to \<open>2 powi 1023\<close>. Otherwise it returns the grid and the
  number of cells times the cube, both rounded. For a pitch of zero or less that volume
  is zero or less. For a negative pitch and a positive, in particular an odd, number of
  cells it is negative when the cube is at least the smallest binary64 step, and it is
  zero when the cube underflows.
\<close>

theorem voxel_volume_unguarded:
  fixes w :: "('s, 'm) world"
  assumes ca: "(cal_fine_voxel_volume_f64 w mesh pitch
                  :: ('s, 'l) event list \<times> (py_error + 'm \<times> float64)) = (evs, res)"
    and v1: "(voxel_volume_mm3_f64 w mesh pitch
                  :: ('s, 'k) event list \<times> (py_error + 'm \<times> float64)) = (evs1, res1)"
    and vox: "vox = voxelize w (triangulate w mesh) pitch"
    and n: "n = n_cells w vox"
    and vol: "vol = float_mul (fl (real n)) (fl (pitch ^ 3))"
  shows "evs = [Call_voxelize pitch] \<and> evs1 = [Call_voxelize pitch]
    \<and> (overflows (pitch ^ 3) \<or> overflows (real n) \<longrightarrow>
         res = Inl OverflowError \<and> res1 = Inl OverflowError)
    \<and> (\<not> overflows (pitch ^ 3) \<and> \<not> overflows (real n) \<longrightarrow>
         res = Inr (vox, vol) \<and> res1 = Inr (vox, vol))
    \<and> (2 powi 1024 \<le> \<bar>pitch ^ 3\<bar> \<longrightarrow> overflows (pitch ^ 3))
    \<and> (\<bar>pitch ^ 3\<bar> \<le> 2 powi 1023 \<longrightarrow> \<not> overflows (pitch ^ 3))
    \<and> (real n \<le> 2 powi 1023 \<longrightarrow> \<not> overflows (real n))
    \<and> (pitch \<le> 0 \<longrightarrow> nonpositive vol)
    \<and> (pitch < 0 \<and> 0 < n \<and> 2 powi (- 1074) \<le> \<bar>pitch ^ 3\<bar> \<longrightarrow> negative vol)
    \<and> (pitch < 0 \<and> odd n \<and> 2 powi (- 1074) \<le> \<bar>pitch ^ 3\<bar> \<longrightarrow> negative vol)
    \<and> (\<bar>pitch ^ 3\<bar> < 2 powi (- 1075) \<longrightarrow> vol = Finite 0 \<and> \<not> negative vol)"
proof -
  define over where "over = (overflows (pitch ^ 3) \<or> overflows (real n))"
  have ca': "(cal_fine_voxel_volume_f64 w mesh pitch
                  :: ('s, 'l) event list \<times> (py_error + 'm \<times> float64)) =
      ([Call_voxelize pitch], if over then Inl OverflowError else Inr (vox, vol))"
    unfolding cal_fine_voxel_volume_f64_eq vox n vol over_def ..
  have v1': "(voxel_volume_mm3_f64 w mesh pitch
                  :: ('s, 'k) event list \<times> (py_error + 'm \<times> float64)) =
      ([Call_voxelize pitch], if over then Inl OverflowError else Inr (vox, vol))"
    unfolding voxel_volume_mm3_f64_eq vox n vol over_def
    by (simp only: float_mul_commute [of "fl (pitch ^ 3)"])
  from ca ca' have evs: "evs = [Call_voxelize pitch]"
    and res: "res = (if over then Inl OverflowError else Inr (vox, vol))"
    by simp_all
  from v1 v1' have evs1: "evs1 = [Call_voxelize pitch]"
    and res1: "res1 = (if over then Inl OverflowError else Inr (vox, vol))"
    by simp_all
  have raised: "overflows (pitch ^ 3) \<or> overflows (real n) \<longrightarrow>
         res = Inl OverflowError \<and> res1 = Inl OverflowError"
    using res res1 by (simp add: over_def)
  have returned: "\<not> overflows (pitch ^ 3) \<and> \<not> overflows (real n) \<longrightarrow>
         res = Inr (vox, vol) \<and> res1 = Inr (vox, vol)"
    using res res1 by (simp add: over_def)
  have big: "2 powi 1024 \<le> \<bar>pitch ^ 3\<bar> \<longrightarrow> overflows (pitch ^ 3)"
    using overflows_large by blast
  have small: "\<bar>pitch ^ 3\<bar> \<le> 2 powi 1023 \<longrightarrow> \<not> overflows (pitch ^ 3)"
    using not_overflows_le [of 1023 "pitch ^ 3"] by simp
  have cells: "real n \<le> 2 powi 1023 \<longrightarrow> \<not> overflows (real n)"
    using not_overflows_le [of 1023 "real n"] by simp
  have le: "pitch \<le> 0 \<longrightarrow> nonpositive vol"
  proof
    assume "pitch \<le> 0"
    then have "fl (pitch ^ 3) \<le> 0" by (intro fl_nonpos cube_nonpos)
    with fl_nat_nonneg show "nonpositive vol"
      unfolding vol by (rule float_mul_nonpositive)
  qed
  have less: "pitch < 0 \<and> 0 < n \<and> 2 powi (- 1074) \<le> \<bar>pitch ^ 3\<bar> \<longrightarrow> negative vol"
  proof
    assume h: "pitch < 0 \<and> 0 < n \<and> 2 powi (- 1074) \<le> \<bar>pitch ^ 3\<bar>"
    then have "0 < n" by blast
    then have k: "1 \<le> fl (real n)" by (rule fl_nat_ge_1)
    from h have "pitch ^ 3 < 0" by (intro cube_neg) simp
    with h have "pitch ^ 3 \<le> - (2 powi (- 1074))" by linarith
    then have "fl (pitch ^ 3) \<le> - (2 powi (- 1074))" by (intro fl_le_neg_pow2) simp_all
    with k show "negative vol"
      unfolding vol by (rule float_mul_negative)
  qed
  have pos: "odd n \<longrightarrow> 0 < n"
    by (cases n) simp_all
  with less have less_odd:
    "pitch < 0 \<and> odd n \<and> 2 powi (- 1074) \<le> \<bar>pitch ^ 3\<bar> \<longrightarrow> negative vol"
    by blast
  have zero: "\<bar>pitch ^ 3\<bar> < 2 powi (- 1075) \<longrightarrow> vol = Finite 0 \<and> \<not> negative vol"
  proof
    assume "\<bar>pitch ^ 3\<bar> < 2 powi (- 1075)"
    then have "fl (pitch ^ 3) = 0" by (rule fl_underflow)
    then show "vol = Finite 0 \<and> \<not> negative vol"
      unfolding vol by (simp add: float_mul_zero)
  qed
  from evs evs1 raised returned big small cells le less less_odd zero show ?thesis
    by blast
qed

text \<open>A grid of 27 cells at pitch \<open>-2\<close>: no overflow, and the volume is \<open>-216\<close>.\<close>

theorem voxel_volume_unguarded_witness:
  "cal_fine_voxel_volume_f64 (scenario [] [7] (\<lambda>shell. False) 8 27) 0 (- 2) =
     ([Call_voxelize (- 2) :: (nat, cal_fine_line) event], Inr (1, Finite (- 216)))
   \<and> voxel_volume_mm3_f64 (scenario [] [7] (\<lambda>shell. False) 8 27) 0 (- 2) =
     ([Call_voxelize (- 2) :: (nat, voxel1_line) event], Inr (1, Finite (- 216)))
   \<and> \<not> overflows ((- 2) ^ 3) \<and> \<not> overflows (real 27)
   \<and> (- 2 :: real) < 0 \<and> n_cells (scenario [] [7] (\<lambda>shell. False) 8 27) 1 = 27 \<and> odd (27 :: nat)
   \<and> 2 powi (- 1074) \<le> \<bar>(- 2 :: real) ^ 3\<bar>
   \<and> negative (Finite (- 216)) \<and> nonpositive (Finite (- 216))"
proof -
  let ?w = "scenario [] [7] (\<lambda>shell. False) 8 27"
  have cube: "fl ((- 2) ^ 3) = - 8" and k: "fl 27 = 27"
    and prod: "fl (- 216) = - 216"
    by (simp_all add: fl_eval)
  have no: "\<not> overflows ((- 2) ^ 3)"
    unfolding overflows_def cube by simp
  have no_n: "\<not> overflows (real 27)"
    unfolding overflows_def using k by simp
  have no': "\<not> overflows (- 216)"
    unfolding overflows_def prod by simp
  have vox: "1 = voxelize ?w (triangulate ?w 0) (- 2)"
    by (simp add: scenario_def)
  have n: "27 = n_cells ?w 1"
    by (simp add: scenario_def)
  have vol: "Finite (- 216) = float_mul (fl (real 27)) (fl ((- 2) ^ 3))"
    unfolding cube using k by (simp add: float_mul_def no' prod)
  have step: "2 powi (- 1074) \<le> \<bar>(- 2 :: real) ^ 3\<bar>"
    by (simp add: power_int_minus)
  have ca: "cal_fine_voxel_volume_f64 ?w 0 (- 2) =
     ([Call_voxelize (- 2) :: (nat, cal_fine_line) event], Inr (1, Finite (- 216)))"
    unfolding cal_fine_voxel_volume_f64_eq vox [symmetric] n [symmetric] vol [symmetric]
    using no no_n by simp
  have v1: "voxel_volume_mm3_f64 ?w 0 (- 2) =
     ([Call_voxelize (- 2) :: (nat, voxel1_line) event], Inr (1, Finite (- 216)))"
    unfolding voxel_volume_mm3_f64_eq vox [symmetric] n [symmetric]
      float_mul_commute [of "fl ((- 2) ^ 3)"] vol [symmetric]
    using no no_n by simp
  from voxel_volume_unguarded [OF ca v1 vox n vol] ca v1 no no_n n step show ?thesis
    by simp
qed

text \<open>
  The claim as stated fails twice in the code, with 5 cells in the grid. At pitch
  \<open>-2 ^ 700\<close> the cube overflows and the formula raises \<open>OverflowError\<close>. At pitch
  \<open>-1 / 2 ^ 400\<close> the cube underflows and the volume is zero, which is not negative.
\<close>

theorem voxel_volume_unguarded_counterexample:
  "snd (cal_fine_voxel_volume_f64 (scenario [] [7] (\<lambda>shell. False) 8 5) 0 (- (2 ^ 700))
          :: (nat, cal_fine_line) event list \<times> (py_error + nat \<times> float64)) = Inl OverflowError
   \<and> snd (voxel_volume_mm3_f64 (scenario [] [7] (\<lambda>shell. False) 8 5) 0 (- (2 ^ 700))
          :: (nat, voxel1_line) event list \<times> (py_error + nat \<times> float64)) = Inl OverflowError
   \<and> snd (cal_fine_voxel_volume_f64 (scenario [] [7] (\<lambda>shell. False) 8 5) 0 (- (1 / 2 ^ 400))
          :: (nat, cal_fine_line) event list \<times> (py_error + nat \<times> float64)) = Inr (1, Finite 0)
   \<and> snd (voxel_volume_mm3_f64 (scenario [] [7] (\<lambda>shell. False) 8 5) 0 (- (1 / 2 ^ 400))
          :: (nat, voxel1_line) event list \<times> (py_error + nat \<times> float64)) = Inr (1, Finite 0)
   \<and> n_cells (scenario [] [7] (\<lambda>shell. False) 8 5) 1 = 5 \<and> odd (5 :: nat)
   \<and> \<not> negative (Finite 0)"
proof -
  let ?w = "scenario [] [7] (\<lambda>shell. False) 8 5"
  define big :: real where "big = - (2 ^ 700)"
  define tiny :: real where "tiny = - (1 / 2 ^ 400)"
  have "\<bar>big ^ 3\<bar> = (2::real) powi 2100"
    unfolding big_def by (simp add: power_abs flip: power_mult)
  moreover have "(2::real) powi 1024 \<le> 2 powi 2100"
    by (rule power_int_increasing) simp_all
  ultimately have "(2::real) powi 1024 \<le> \<bar>big ^ 3\<bar>" by simp
  then have over: "overflows (big ^ 3)" by (rule overflows_large)
  have "\<bar>tiny ^ 3\<bar> = (2::real) powi (- 1200)"
    unfolding tiny_def
    by (simp add: power_abs power_int_minus power_one_over field_simps flip: power_mult)
  moreover have "(2::real) powi (- 1200) < 2 powi (- 1075)"
    by (rule power_int_strict_increasing) simp_all
  ultimately have "\<bar>tiny ^ 3\<bar> < (2::real) powi (- 1075)" by simp
  then have under: "fl (tiny ^ 3) = 0" by (rule fl_underflow)
  have "fl (tiny ^ 3) = 0 \<Longrightarrow> \<not> overflows (tiny ^ 3)"
    by (simp add: overflows_def)
  with under have no: "\<not> overflows (tiny ^ 3)" by blast
  have "\<bar>real 5\<bar> \<le> 2 powi 3" by simp
  then have no_n: "\<not> overflows (real 5)"
    by (intro not_overflows_le [of 3]) simp_all
  have vox: "voxelize ?w (triangulate ?w 0) p = 1" for p
    by (simp add: scenario_def)
  have n: "n_cells ?w 1 = 5"
    by (simp add: scenario_def)
  have a: "snd (cal_fine_voxel_volume_f64 ?w 0 big
          :: (nat, cal_fine_line) event list \<times> (py_error + nat \<times> float64)) = Inl OverflowError"
    unfolding cal_fine_voxel_volume_f64_eq using over by simp
  have a1: "snd (voxel_volume_mm3_f64 ?w 0 big
          :: (nat, voxel1_line) event list \<times> (py_error + nat \<times> float64)) = Inl OverflowError"
    unfolding voxel_volume_mm3_f64_eq using over by simp
  have b: "snd (cal_fine_voxel_volume_f64 ?w 0 tiny
          :: (nat, cal_fine_line) event list \<times> (py_error + nat \<times> float64)) = Inr (1, Finite 0)"
    unfolding cal_fine_voxel_volume_f64_eq vox n under float_mul_zero using no no_n by simp
  have b1: "snd (voxel_volume_mm3_f64 ?w 0 tiny
          :: (nat, voxel1_line) event list \<times> (py_error + nat \<times> float64)) = Inr (1, Finite 0)"
    unfolding voxel_volume_mm3_f64_eq vox n under float_mul_commute [of 0] float_mul_zero
    using no no_n by simp
  from a a1 b b1 n show ?thesis
    unfolding big_def tiny_def by simp
qed

section \<open>Unit conversion\<close>

text \<open>
  Claim C6. The four tables of factors (cal\_fine.py, voxel1.py, voxel2.py, cal\_box.py)
  agree: 1 for \<open>mm3\<close>, 1/1000 for \<open>cm3\<close>, one billionth for \<open>m3\<close>, each the quotient Python
  computes. Converting to \<open>mm3\<close> changes nothing (as Python computes it, a volume that
  is a float stays itself). The reciprocal of the \<open>cm3\<close> factor is
  exactly 1000, in exact arithmetic and as Python computes it. The scripts convert from
  native units only; the way back is the multiplication by that reciprocal. In exact
  arithmetic it gives the volume again. As Python computes it, it gives the volume within
  the floating-point tolerance of the specification: for every volume up to
  \<open>2 powi 1000\<close> nothing overflows and the error is at most the volume over \<open>2 ^ 51\<close> plus
  \<open>2 powi (- 1065)\<close>, and from \<open>2 powi (- 1012)\<close> on, where nothing underflows, it is at
  most the volume over \<open>2 ^ 51\<close>.
\<close>

theorem unit_factors:
  "UNIT u = UNIT_SCALE u \<and> voxel2_unit_scale u = UNIT_SCALE u \<and> cal_box_scale u = UNIT_SCALE u
   \<and> UNIT_SCALE mm3 = 1 \<and> UNIT_SCALE cm3 = 1 / 1000 \<and> UNIT_SCALE m3 = 1 / 10 ^ 9
   \<and> convert_volume v mm3 = v
   \<and> 1 / UNIT_SCALE cm3 = 1000
   \<and> convert_volume v cm3 * (1 / UNIT_SCALE cm3) = v
   \<and> UNIT_SCALE_f64 u = fl (UNIT_SCALE u)
   \<and> convert_volume_f64 v mm3 = fl v
   \<and> fdiv 1 (UNIT_SCALE_f64 cm3) = 1000
   \<and> (\<bar>v\<bar> \<le> 2 powi 1000 \<longrightarrow>
        \<bar>fmul (convert_volume_f64 v cm3) (fdiv 1 (UNIT_SCALE_f64 cm3)) - v\<bar>
          \<le> \<bar>v\<bar> / 2 ^ 51 + 2 powi (- 1065)
        \<and> \<not> overflows (v * UNIT_SCALE_f64 cm3)
        \<and> \<not> overflows (convert_volume_f64 v cm3 * fdiv 1 (UNIT_SCALE_f64 cm3)))
   \<and> (2 powi (- 1012) \<le> \<bar>v\<bar> \<and> \<bar>v\<bar> \<le> 2 powi 1000 \<longrightarrow>
        \<bar>fmul (convert_volume_f64 v cm3) (fdiv 1 (UNIT_SCALE_f64 cm3)) - v\<bar> \<le> \<bar>v\<bar> / 2 ^ 51)"
proof -
  have tables: "UNIT u = UNIT_SCALE u \<and> voxel2_unit_scale u = UNIT_SCALE u
      \<and> cal_box_scale u = UNIT_SCALE u"
    by (cases u) simp_all
  have rounded_table: "UNIT_SCALE_f64 u = fl (UNIT_SCALE u)"
    by (cases u) (simp_all add: fdiv_def, simp add: fl_eval)
  have native: "convert_volume_f64 v mm3 = fl v"
    by (simp add: convert_volume_f64_def fmul_def)
  have recip: "fdiv 1 (UNIT_SCALE_f64 cm3) = 1000"
    unfolding UNIT_SCALE_f64.simps fdiv_1_1000 by (simp add: fl_eval)
  have every: "\<bar>v\<bar> \<le> 2 powi 1000 \<longrightarrow>
        \<bar>fmul (convert_volume_f64 v cm3) (fdiv 1 (UNIT_SCALE_f64 cm3)) - v\<bar>
          \<le> \<bar>v\<bar> / 2 ^ 51 + 2 powi (- 1065)
        \<and> \<not> overflows (v * UNIT_SCALE_f64 cm3)
        \<and> \<not> overflows (convert_volume_f64 v cm3 * fdiv 1 (UNIT_SCALE_f64 cm3))"
  proof
    assume hi: "\<bar>v\<bar> \<le> 2 powi 1000"
    from round_trip_absolute [OF hi]
    show "\<bar>fmul (convert_volume_f64 v cm3) (fdiv 1 (UNIT_SCALE_f64 cm3)) - v\<bar>
          \<le> \<bar>v\<bar> / 2 ^ 51 + 2 powi (- 1065)
        \<and> \<not> overflows (v * UNIT_SCALE_f64 cm3)
        \<and> \<not> overflows (convert_volume_f64 v cm3 * fdiv 1 (UNIT_SCALE_f64 cm3))"
      unfolding recip unfolding convert_volume_f64_def UNIT_SCALE_f64.simps .
  qed
  have normal: "2 powi (- 1012) \<le> \<bar>v\<bar> \<and> \<bar>v\<bar> \<le> 2 powi 1000 \<longrightarrow>
        \<bar>fmul (convert_volume_f64 v cm3) (fdiv 1 (UNIT_SCALE_f64 cm3)) - v\<bar> \<le> \<bar>v\<bar> / 2 ^ 51"
  proof
    assume "2 powi (- 1012) \<le> \<bar>v\<bar> \<and> \<bar>v\<bar> \<le> 2 powi 1000"
    then have lo: "2 powi (- 1012) \<le> \<bar>v\<bar>" and hi: "\<bar>v\<bar> \<le> 2 powi 1000" by blast+
    from round_trip_tolerance [OF lo hi]
    have "\<bar>fmul (fmul v (fdiv 1 1000)) 1000 - v\<bar> \<le> \<bar>v\<bar> / 2 ^ 51" by blast
    then show "\<bar>fmul (convert_volume_f64 v cm3) (fdiv 1 (UNIT_SCALE_f64 cm3)) - v\<bar> \<le> \<bar>v\<bar> / 2 ^ 51"
      unfolding recip unfolding convert_volume_f64_def UNIT_SCALE_f64.simps .
  qed
  have exact: "UNIT_SCALE mm3 = 1 \<and> UNIT_SCALE cm3 = 1 / 1000 \<and> UNIT_SCALE m3 = 1 / 10 ^ 9
      \<and> convert_volume v mm3 = v \<and> 1 / UNIT_SCALE cm3 = 1000
      \<and> convert_volume v cm3 * (1 / UNIT_SCALE cm3) = v"
    by (simp add: convert_volume_def)
  from tables exact rounded_table native recip every normal show ?thesis
    by blast
qed

text \<open>
  The volume 9: converted and back it is the next binary64 number above 9, which Python
  prints as \<open>9.000000000000002\<close>, within the tolerance.
\<close>

theorem unit_factors_witness:
  "2 powi (- 1012) \<le> \<bar>9 :: real\<bar> \<and> \<bar>9 :: real\<bar> \<le> 2 powi 1000
   \<and> fmul (convert_volume_f64 9 cm3) (fdiv 1 (UNIT_SCALE_f64 cm3)) =
       5066549580791809 / 562949953421312
   \<and> \<bar>fmul (convert_volume_f64 9 cm3) (fdiv 1 (UNIT_SCALE_f64 cm3)) - 9\<bar> \<le> \<bar>9\<bar> / 2 ^ 51
   \<and> \<not> overflows (9 * UNIT_SCALE_f64 cm3)
   \<and> \<not> overflows (convert_volume_f64 9 cm3 * fdiv 1 (UNIT_SCALE_f64 cm3))"
proof -
  have range: "2 powi (- 1012) \<le> \<bar>9 :: real\<bar> \<and> \<bar>9 :: real\<bar> \<le> 2 powi 1000"
    by (simp add: power_int_minus)
  have r: "fdiv 1 (1152921504606847 / 1152921504606846976) = 1000"
    by (simp add: fl_eval)
  have c: "fmul 9 (1152921504606847 / 1152921504606846976) = 1297036692682703 / 144115188075855872"
    by (simp add: fl_eval)
  have b: "fmul (1297036692682703 / 144115188075855872) 1000 = 5066549580791809 / 562949953421312"
    by (simp add: fl_eval)
  have val: "fmul (convert_volume_f64 9 cm3) (fdiv 1 (UNIT_SCALE_f64 cm3)) =
       5066549580791809 / 562949953421312"
    unfolding convert_volume_f64_def UNIT_SCALE_f64.simps fdiv_1_1000 r c b ..
  from unit_factors [of cm3 9] range val show ?thesis
    by blast
qed

section \<open>The hybrid pipeline\<close>










section \<open>The empty mesh\<close>

text \<open>
  Claim C2 asks every voxel-using tool to stop with an error of its own when the mesh has
  no point. voxel1.py does: it prints the error and exits with status 2, before any call
  of the voxelizer. cal\_fine.py and voxel2.py never read the number of points: on a file
  that reads but holds no geometry they voxelize, print the volume 0 and return, so the
  exit status is 0.
\<close>

theorem empty_mesh_runs:
  "n_points no_geometry (pv_read_stl no_geometry (Shape no_geometry ''part.step'')) = 0
   \<and> cal_fine_main no_geometry (run_args ''part.step'' 1 cm3 False) =
       ([Print (READ ''part.step''), Call_ReadFile ''part.step'', Print (Sew_tol (5 / 100)),
         Call_Sewing (5 / 100), Print WARN_No_closed_solid,
         Call_write_stl_file 0 (Tmp_stl ''t.stl''), Call_pv_read (Tmp_stl ''t.stl''),
         Call_voxelize 1, Print (Voxel_line 1 0 cm3)],
        Returned)
   \<and> exit_code (snd (cal_fine_main no_geometry (run_args ''part.step'' 1 cm3 False))) = 0
   \<and> voxel1_main no_geometry (run_args ''part.step'' 1 cm3 False) =
       ([Print (INFO_Reading_STEP ''part.step''), Call_ReadFile ''part.step'',
         Print INFO_Converting_shape_to_mesh, Call_write_stl_file 0 (Tmp_stl ''tmp.stl''),
         Call_pv_read (Tmp_stl ''tmp.stl''), Print_stderr ERROR_Empty_mesh_extracted],
        SystemExit 2)
   \<and> voxel2_main no_geometry (run_args ''part.step'' 1 cm3 False) =
       ([Print (INFO_STEP_file ''part.step''), Print (INFO_Voxel_Pitch 1),
         Print (INFO_Target_Unit cm3), Call_ReadFile ''part.step'',
         Print (INFO_Voxelizing_with_pitch 1), Call_voxelize 1, Print (Result_volume 0 cm3)],
        Returned)"
  by (simp add: cal_fine_main_def cal_fine_read_step_shape_def sewing_to_solids_def
      cal_fine_shape_to_pv_mesh_def cal_fine_voxel_volume_def
      voxel1_main_def voxel1_read_step_shape_def voxel1_shape_to_pv_mesh_def
      voxel2_main_def voxel2_voxel_volume_def Let_def
      no_geometry_def scenario_def run_args_def)

lemma voxel1_empty_mesh_exits_2:
  assumes "os_path_exists w (arg_step a)" "ReadFile w (arg_step a) = IFSelect_RetDone"
    and "n_points w (pv_read_stl w (Shape w (arg_step a))) = 0"
  shows "snd (voxel1_main w a) = SystemExit 2
    \<and> last (fst (voxel1_main w a)) = Print_stderr ERROR_Empty_mesh_extracted
    \<and> voxel_calls (fst (voxel1_main w a)) = []"
  using assms
  by (cases "arg_bbox a")
    (simp_all add: voxel1_main_def voxel1_read_step_shape_def voxel1_shape_to_pv_mesh_def
      shape_bbox_mm3_def Let_def split: prod.splits)

lemma cal_fine_main_ignores_n_points:
  "cal_fine_main (w\<lparr>n_points := f\<rparr>) a = cal_fine_main w a"
  by (simp add: cal_fine_main_def cal_fine_read_step_shape_def sewing_to_solids_eq
      solids_volume_eq bbox_volume_mm3_def cal_fine_shape_to_pv_mesh_def
      cal_fine_voxel_volume_def Let_def)

lemma voxel2_main_ignores_n_points:
  "voxel2_main (w\<lparr>n_points := f\<rparr>) a = voxel2_main w a"
  by (simp add: voxel2_main_def voxel2_voxel_volume_def Let_def)

section \<open>The bounding box\<close>

lemma sewing_to_solids_box:
  "sewing_to_solids (w\<lparr>Bnd_Box_Get := f\<rparr>) shape tol = sewing_to_solids w shape tol"
  by (simp add: sewing_to_solids_eq Let_def)

lemma solids_volume_box:
  "solids_volume (w\<lparr>Bnd_Box_Get := f\<rparr>) solids sc = solids_volume w solids sc"
  by (simp add: solids_volume_eq)

lemma sewing_no_bbox:
  assumes "sewing_to_solids w shape tol = (ev_sew, solids)"
  shows "filter (\<lambda>e. \<not> is_bbox_event e) ev_sew = ev_sew"
  using assms
  by (auto simp: sewing_to_solids_eq Let_def filter_id_conv split: if_splits)

lemma Solid_lines_no_bbox:
  "filter (\<lambda>e. \<not> is_bbox_event e) (map (\<lambda>(idx, v, com). Print (Solid_line idx v u com)) infos) =
     map (\<lambda>(idx, v, com). Print (Solid_line idx v u com)) infos"
  by (auto simp: filter_id_conv)

lemma cal_fine_bbox_diagnostic:
  fixes w :: "('s, 'm) world"
  shows "filter (\<lambda>e. \<not> is_bbox_event e) (fst (cal_fine_main (w\<lparr>Bnd_Box_Get := f\<rparr>) a)) =
     fst (cal_fine_main w (a\<lparr>arg_bbox := False\<rparr>))
   \<and> snd (cal_fine_main (w\<lparr>Bnd_Box_Get := f\<rparr>) a) = snd (cal_fine_main w (a\<lparr>arg_bbox := False\<rparr>))"
proof -
  obtain ev_sew :: "('s, cal_fine_line) event list" and solids
    where sew: "sewing_to_solids w (Shape w (arg_step a)) (arg_tol a) = (ev_sew, solids)"
    by (cases "sewing_to_solids w (Shape w (arg_step a)) (arg_tol a) :: ('s, cal_fine_line) event list \<times> 's list")
  obtain infos tot where vol: "solids_volume w solids (UNIT (arg_unit a)) = (infos, tot)"
    by (cases "solids_volume w solids (UNIT (arg_unit a))")
  note nb = sewing_no_bbox [OF sew]
  show ?thesis
    unfolding cal_fine_main_def
    by (cases "os_path_exists w (arg_step a)"; cases "ReadFile w (arg_step a) = IFSelect_RetDone";
        cases "arg_bbox a"; cases "solids = []"; cases "arg_show a")
      (simp_all add: cal_fine_read_step_shape_def Let_def bbox_volume_mm3_def
        cal_fine_shape_to_pv_mesh_def cal_fine_voxel_volume_def sewing_to_solids_box
        solids_volume_box sew vol nb Solid_lines_no_bbox split: prod.splits)
qed

lemma voxel1_bbox_diagnostic:
  "filter (\<lambda>e. \<not> is_bounding_box_event e) (fst (voxel1_main (w\<lparr>Bnd_Box_Get := f\<rparr>) a)) =
     fst (voxel1_main w (a\<lparr>arg_bbox := False\<rparr>))
   \<and> snd (voxel1_main (w\<lparr>Bnd_Box_Get := f\<rparr>) a) = snd (voxel1_main w (a\<lparr>arg_bbox := False\<rparr>))"
  unfolding voxel1_main_def
  by (cases "os_path_exists w (arg_step a)"; cases "ReadFile w (arg_step a) = IFSelect_RetDone";
      cases "arg_bbox a"; cases "n_points w (pv_read_stl w (Shape w (arg_step a))) = 0";
      cases "arg_show a")
    (simp_all add: Let_def voxel1_read_step_shape_def voxel1_shape_to_pv_mesh_def
      voxel_volume_mm3_def shape_bbox_mm3_def split: prod.splits)

text \<open>
  Claim C7. The three estimators (\<open>bbox_volume_mm3\<close> of cal\_fine.py, \<open>shape_bbox_mm3\<close> of
  voxel1.py, \<open>compute_bbox_volume\<close> of cal\_box.py once the file reads) return the box of
  the kernel and the product of its three extents, which is not negative when no maximum
  is below its minimum. In the two pipelines the box is a diagnostic only: whatever box
  the kernel returns, the run without its bounding-box lines is the run with \<open>--bbox\<close>
  off, and it ends the same way. cal\_box.py prints nothing but the box.
\<close>

theorem bounding_box_volume:
  fixes w :: "('s, 'm) world"
  assumes box: "bbox_volume_mm3 w shape = (xmin, ymin, zmin, xmax, ymax, zmax, vol)"
  shows "Bnd_Box_Get w shape = (xmin, ymin, zmin, xmax, ymax, zmax)
    \<and> vol = (xmax - xmin) * (ymax - ymin) * (zmax - zmin)
    \<and> shape_bbox_mm3 w shape = (xmin, ymin, zmin, xmax, ymax, zmax, vol)
    \<and> (ReadFile w path = IFSelect_RetDone \<and> Shape w path = shape \<longrightarrow>
         snd (compute_bbox_volume w path :: ('s, 'l) event list \<times> _) =
           Inr (xmin, ymin, zmin, xmax, ymax, zmax, vol))
    \<and> (xmin \<le> xmax \<and> ymin \<le> ymax \<and> zmin \<le> zmax \<longrightarrow> 0 \<le> vol)
    \<and> filter (\<lambda>e. \<not> is_bbox_event e) (fst (cal_fine_main (w\<lparr>Bnd_Box_Get := f\<rparr>) a)) =
         fst (cal_fine_main w (a\<lparr>arg_bbox := False\<rparr>))
    \<and> snd (cal_fine_main (w\<lparr>Bnd_Box_Get := f\<rparr>) a) = snd (cal_fine_main w (a\<lparr>arg_bbox := False\<rparr>))
    \<and> filter (\<lambda>e. \<not> is_bounding_box_event e) (fst (voxel1_main (w\<lparr>Bnd_Box_Get := f\<rparr>) a)) =
         fst (voxel1_main w (a\<lparr>arg_bbox := False\<rparr>))
    \<and> snd (voxel1_main (w\<lparr>Bnd_Box_Get := f\<rparr>) a) = snd (voxel1_main w (a\<lparr>arg_bbox := False\<rparr>))"
proof -
  from box have get: "Bnd_Box_Get w shape = (xmin, ymin, zmin, xmax, ymax, zmax)"
    and vol: "vol = (xmax - xmin) * (ymax - ymin) * (zmax - zmin)"
    by (auto simp: bbox_volume_mm3_def split: prod.splits)
  have v1: "shape_bbox_mm3 w shape = (xmin, ymin, zmin, xmax, ymax, zmax, vol)"
    by (simp add: shape_bbox_mm3_def get vol)
  have cb: "ReadFile w path = IFSelect_RetDone \<and> Shape w path = shape \<longrightarrow>
         snd (compute_bbox_volume w path :: ('s, 'l) event list \<times> _) =
           Inr (xmin, ymin, zmin, xmax, ymax, zmax, vol)"
    by (auto simp: compute_bbox_volume_def get vol)
  have nonneg: "xmin \<le> xmax \<and> ymin \<le> ymax \<and> zmin \<le> zmax \<longrightarrow> 0 \<le> vol"
    by (simp add: vol)
  from get vol v1 cb nonneg cal_fine_bbox_diagnostic voxel1_bbox_diagnostic
  show ?thesis by blast
qed

theorem bounding_box_volume_witness:
  "bbox_volume_mm3 closed_cube 0 = (0, 0, 0, 10, 10, 10, 1000)
   \<and> shape_bbox_mm3 closed_cube 0 = (0, 0, 0, 10, 10, 10, 1000)
   \<and> snd (compute_bbox_volume closed_cube ''part.step'' :: (nat, cal_box_line) event list \<times> _) =
        Inr (0, 0, 0, 10, 10, 10, 1000)
   \<and> (0::real) \<le> 1000"
proof -
  have box: "bbox_volume_mm3 closed_cube 0 = (0, 0, 0, 10, 10, 10, 1000)"
    by (simp add: bbox_volume_mm3_def closed_cube_def scenario_def)
  have rd: "ReadFile closed_cube ''part.step'' = IFSelect_RetDone \<and> Shape closed_cube ''part.step'' = 0"
    by (simp add: closed_cube_def scenario_def)
  from bounding_box_volume [where ?'l = cal_box_line, OF box, of "''part.step''"] box rd show ?thesis
    by simp
qed

section \<open>Missing input and exit codes\<close>



end
